theory Spec2Isabelle
  imports Main "HOL-Library.Sublist"
begin

section \<open>Configuration objects, errors and the process-wide context\<close>

text \<open>
  Values of the connection and option fields that \<open>FileService\<close> only copies
  (host, port, concurrency, ...).
\<close>

datatype jsval = JStr string | JNum int | JBool bool

text \<open>A thrown JavaScript \<open>Error\<close>: the source throws plain errors that carry a message.\<close>

datatype error = Error (message: string)

text \<open>
  The names of the properties that every plain object inherits from \<open>Object.prototype\<close>
  in Node. Reading one of them from an object that has no own property of that name
  gives the inherited member, a function (the prototype object itself for \<open>__proto__\<close>):
  a truthy value that has no own enumerable properties.
\<close>

definition Object_prototype_members :: "string list" where
  "Object_prototype_members =
     [''constructor'', ''__defineGetter__'', ''__defineSetter__'', ''hasOwnProperty'',
      ''__lookupGetter__'', ''__lookupSetter__'', ''isPrototypeOf'', ''propertyIsEnumerable'',
      ''toString'', ''valueOf'', ''__proto__'', ''toLocaleString'']"

text \<open>
  The result of \<open>obj[key]\<close>: the object's own property, else the member inherited under
  that name, else \<open>undefined\<close>.
\<close>

datatype 'a property = Own 'a | Inherited string | Undefined

definition get_property :: "(string \<rightharpoonup> 'a) \<Rightarrow> string \<Rightarrow> 'a property" where
  "get_property obj key =
     (case obj key of
        Some v \<Rightarrow> Own v
      | None \<Rightarrow> if key \<in> set Object_prototype_members then Inherited key else Undefined)"

text \<open>
  A value of the \<open>agent\<close> field: a string, or the member of \<open>Object.prototype\<close> of the
  given name, which \<open>getConfig\<close> can store there.
\<close>

datatype agent_value = AgentString string | AgentInherited string

text \<open>
  \<open>interface FileServiceConfig\<close>. Every field is optional in the model, since the same
  interface types the partial profile objects that are merged over the base; \<open>None\<close> is
  a key that the object does not have. \<open>others\<close> holds the remaining fields by name.
\<close>

datatype FileServiceConfig = FileServiceConfig
  (agent: "agent_value option")
  (remotePath: "string option")
  (ignore: "string list option")
  (ignoreFile: "string option")
  (profiles: "(string \<times> FileServiceConfig) list option")
  (others: "string \<rightharpoonup> jsval")

text \<open>
  \<open>interface ServiceConfig\<close>, the result of \<open>getConfig\<close>: the \<open>ignore\<close> field holds the
  predicate or \<open>null\<close> (\<open>None\<close>).
\<close>

record ServiceConfig =
  sc_agent :: "agent_value option"
  sc_remotePath :: "string option"
  sc_ignore :: "(string \<Rightarrow> bool) option"
  sc_ignoreFile :: "string option"
  sc_profiles :: "(string \<times> FileServiceConfig) list option"
  sc_others :: "string \<rightharpoonup> jsval"

text \<open>An entry of the disk, as \<open>fs.existsSync\<close> and \<open>fs.readFileSync\<close> see it.\<close>

datatype node = File string | Dir

datatype fs_call = ExistsSync string | ReadFileSync string

text \<open>
  Modelled from the spec: \<open>app.ignoreFileCache\<close> (module \<open>../app\<close>) is a process-wide
  cache from the path of an ignore file to its line list; nothing invalidates it
  automatically.
\<close>

type_synonym ignore_file_cache = "string \<rightharpoonup> string list"

text \<open>
  What the code reads and writes outside the service object: \<open>process.env\<close>,
  \<open>app.state.profile\<close>, \<open>app.ignoreFileCache\<close>, the disk and the logger.
  \<open>fs_calls\<close> records every call into \<open>fs\<close>, in order.
\<close>

record world =
  env :: "string \<rightharpoonup> string"
  state_profile :: "string option"
  ignoreFileCache :: ignore_file_cache
  disk :: "string \<rightharpoonup> node"
  fs_calls :: "fs_call list"
  logged :: "string list"

text \<open>JavaScript truthiness of a string that may be \<open>undefined\<close>.\<close>

definition truthy :: "string option \<Rightarrow> bool" where
  "truthy v = (case v of None \<Rightarrow> False | Some s \<Rightarrow> s \<noteq> [])"

definition dquote :: string where
  "dquote = [CHR 0x22]"

section \<open>The ignore resolver\<close>

definition cons_head :: "char \<Rightarrow> string list \<Rightarrow> string list" where
  "cons_head c ls = (case ls of [] \<Rightarrow> [[c]] | l # r \<Rightarrow> (c # l) # r)"

text \<open>
  The \<open>split\<close> of the file's text at line ends: a line ends at a line feed, together
  with the carriage return right before it if there is one.
\<close>

fun split_lines :: "string \<Rightarrow> string list" where
  "split_lines [] = [[]]"
| "split_lines [c] = (if c = CHR 0x0A then [[], []] else [[c]])"
| "split_lines (c # d # cs) =
     (if c = CHR 0x0A then [] # split_lines (d # cs)
      else if c = CHR 0x0D \<and> d = CHR 0x0A then [] # split_lines cs
      else cons_head c (split_lines (d # cs)))"

definition missing_ignore_file :: "string \<Rightarrow> error" where
  "missing_ignore_file f =
     Error (''File '' @ f @ '' not found. Check your config of '' @ dquote @ ''ignoreFile'' @ dquote)"

definition log_fs :: "fs_call \<Rightarrow> world \<Rightarrow> world" where
  "log_fs c w = w\<lparr>fs_calls := fs_calls w @ [c]\<rparr>"

definition filesIgnoredFromConfig :: "FileServiceConfig \<Rightarrow> world \<Rightarrow> (error + string list) \<times> world" where
  "filesIgnoredFromConfig config w =
     (let ign = (case ignore config of
                   None \<Rightarrow> []
                 | Some xs \<Rightarrow> if length xs \<noteq> 0 then xs else [])
      in if \<not> truthy (ignoreFile config) then (Inr ign, w)
         else
           let f = the (ignoreFile config) in
           case ignoreFileCache w f of
             Some ignoreFromFile \<Rightarrow> (Inr (ign @ ignoreFromFile), w)
           | None \<Rightarrow>
               (let w1 = log_fs (ExistsSync f) w in
                case disk w f of
                  Some (File content) \<Rightarrow>
                    (let ignoreFromFile = split_lines content;
                         w2 = log_fs (ReadFileSync f) w1
                     in (Inr (ign @ ignoreFromFile),
                         w2\<lparr>ignoreFileCache := (ignoreFileCache w2)(f \<mapsto> ignoreFromFile)\<rparr>))
                | Some Dir \<Rightarrow>
                    (Inl (Error ''EISDIR: illegal operation on a directory, read''),
                     log_fs (ReadFileSync f) w1)
                | None \<Rightarrow> (Inl (missing_ignore_file f), w1)))"

text \<open>
  The functions of Node's \<open>path\<close> module and of the modules \<open>./upath\<close> and \<open>./ignore\<close>
  that the predicate calls; they are parameters of the model. \<open>ignores lib ps p\<close> is
  \<open>Ignore.from(ps).ignores(p)\<close>.
\<close>

record pathlib =
  normalize :: "string \<Rightarrow> string"
  relative :: "string \<Rightarrow> string \<Rightarrow> string"
  upath_relative :: "string option \<Rightarrow> string \<Rightarrow> string"
  ignores :: "string list \<Rightarrow> string \<Rightarrow> bool"

definition relativePath :: "pathlib \<Rightarrow> string \<Rightarrow> string option \<Rightarrow> string \<Rightarrow> string" where
  "relativePath lib localContext remoteContext fsPath =
     (let normalizedPath = normalize lib fsPath
      in if prefix localContext normalizedPath
         then relative lib localContext fsPath
         else upath_relative lib remoteContext fsPath)"

definition ignoreFunc :: "pathlib \<Rightarrow> string \<Rightarrow> string option \<Rightarrow> string list \<Rightarrow> string \<Rightarrow> bool" where
  "ignoreFunc lib localContext remoteContext ignoreConfig fsPath =
     (let rp = relativePath lib localContext remoteContext fsPath
      in rp \<noteq> [] \<and> ignores lib ignoreConfig rp)"


section \<open>The file service\<close>

text \<open>
  \<open>class FileService\<close>, with the fields the modelled methods use. Schedulers and transfer
  tasks are objects compared by reference: the service holds their addresses.
  \<open>configValidator\<close> is \<open>None\<close> until \<open>setConfigValidator\<close> is called; a validator returns
  the message of its error object, or \<open>None\<close> when it returns nothing.
\<close>

type_synonym sched_ref = nat
type_synonym task_ref = nat

record FileService =
  baseDir :: string
  workspace :: string
  config :: FileServiceConfig
  configValidator :: "(FileServiceConfig \<Rightarrow> string option) option"
  pendingTransferTasks :: "task_ref list"
  schedulers :: "sched_ref list"

definition new_FileService :: "string \<Rightarrow> string \<Rightarrow> FileServiceConfig \<Rightarrow> FileService" where
  "new_FileService baseDir' workspace' config' =
     \<lparr>baseDir = baseDir', workspace = workspace', config = config',
      configValidator = None, pendingTransferTasks = [], schedulers = []\<rparr>"

definition setConfigValidator :: "(FileServiceConfig \<Rightarrow> string option) \<Rightarrow> FileService \<Rightarrow> FileService" where
  "setConfigValidator v this = this\<lparr>configValidator := Some v\<rparr>"

definition createIgnoreFn ::
  "pathlib \<Rightarrow> FileService \<Rightarrow> FileServiceConfig \<Rightarrow> world \<Rightarrow> (error + (string \<Rightarrow> bool) option) \<times> world" where
  "createIgnoreFn lib this cfg w =
     (let localContext = baseDir this;
          remoteContext = remotePath cfg
      in case filesIgnoredFromConfig cfg w of
           (Inl e, w') \<Rightarrow> (Inl e, w')
         | (Inr ignoreConfig, w') \<Rightarrow>
             if length ignoreConfig \<le> 0 then (Inr None, w')
             else (Inr (Some (ignoreFunc lib localContext remoteContext ignoreConfig)), w'))"

subsection \<open>getConfig\<close>

text \<open>\<open>Object.assign({}, config)\<close> followed by \<open>delete copied.profiles\<close>.\<close>

definition copy_without_profiles :: "FileServiceConfig \<Rightarrow> FileServiceConfig" where
  "copy_without_profiles c =
     FileServiceConfig (agent c) (remotePath c) (ignore c) (ignoreFile c) None (others c)"

definition set_agent :: "agent_value \<Rightarrow> FileServiceConfig \<Rightarrow> FileServiceConfig" where
  "set_agent v c =
     FileServiceConfig (Some v) (remotePath c) (ignore c) (ignoreFile c) (profiles c) (others c)"

text \<open>A key of the source object replaces the target's; a key it lacks leaves the target's.\<close>

definition over :: "'a option \<Rightarrow> 'a option \<Rightarrow> 'a option" where
  "over t s = (case s of None \<Rightarrow> t | Some v \<Rightarrow> Some v)"

text \<open>\<open>Object.assign(target, source)\<close>.\<close>

definition assign :: "FileServiceConfig \<Rightarrow> FileServiceConfig \<Rightarrow> FileServiceConfig" where
  "assign target source =
     FileServiceConfig
       (over (agent target) (agent source))
       (over (remotePath target) (remotePath source))
       (over (ignore target) (ignore source))
       (over (ignoreFile target) (ignoreFile source))
       (over (profiles target) (profiles source))
       (others target ++ others source)"

definition env_not_found :: "string \<Rightarrow> error" where
  "env_not_found evnVarName =
     Error (''Environment variable '' @ dquote @ evnVarName @ dquote @ '' not found'')"

definition unknown_profile :: "string \<Rightarrow> error" where
  "unknown_profile p =
     Error (''Unkown Profile '' @ dquote @ p @ dquote @ ''.''
            @ '' Please check your profile setting.''
            @ '' You can set a profile by running command `SFTP: Set Profile`.'')"

definition validation_fail :: "string \<Rightarrow> bool \<Rightarrow> error" where
  "validation_fail msg hint =
     Error (''Config validation fail: '' @ msg @ ''.''
            @ (if hint then '' Maybe you should set a profile first.'' else []))"

text \<open>
  What \<open>config.agent.startsWith\<close> throws when \<open>agent\<close> is not a string but a function.
\<close>

definition agent_type_error :: error where
  "agent_type_error = Error ''config.agent.startsWith is not a function''"

text \<open>
  The \<open>$\<close> indirection of \<open>agent\<close>: reads the base configuration, writes the copy.
  \<open>process.env[evnVarName]\<close> is a property read: for a variable that is not set it gives
  the member inherited under that name, if there is one, and that value is truthy.
\<close>

definition resolveAgent :: "FileServiceConfig \<Rightarrow> FileServiceConfig \<Rightarrow> world \<Rightarrow> error + FileServiceConfig" where
  "resolveAgent cfg copied w =
     (case agent cfg of
        None \<Rightarrow> Inr copied
      | Some (AgentInherited k) \<Rightarrow> Inl agent_type_error
      | Some (AgentString a) \<Rightarrow>
          if a \<noteq> [] \<and> prefix ''$'' a
          then let evnVarName = drop 1 a;
                   val = get_property (env w) evnVarName
               in (case val of
                     Undefined \<Rightarrow> Inl (env_not_found evnVarName)
                   | Own v \<Rightarrow>
                       if v = [] then Inl (env_not_found evnVarName)
                       else Inr (set_agent (AgentString v) copied)
                   | Inherited k \<Rightarrow> Inr (set_agent (AgentInherited k) copied))
          else Inr copied)"

definition hasProfile :: "FileServiceConfig \<Rightarrow> bool" where
  "hasProfile cfg = (case profiles cfg of None \<Rightarrow> False | Some ps \<Rightarrow> length ps > 0)"

text \<open>
  The profile step. \<open>config.profiles[app.state.profile]\<close> is a property read as well; an
  inherited member is truthy, and \<open>Object.assign\<close> copies nothing from it, since it has
  no own enumerable properties.
\<close>

definition applyProfile :: "FileServiceConfig \<Rightarrow> FileServiceConfig \<Rightarrow> world \<Rightarrow> (error + FileServiceConfig) \<times> world" where
  "applyProfile cfg copied w =
     (if hasProfile cfg \<and> truthy (state_profile w)
      then let p = the (state_profile w);
               w1 = w\<lparr>logged := logged w @ [''Using profile: '' @ p]\<rparr>
           in case get_property (map_of (the (profiles cfg))) p of
                Undefined \<Rightarrow> (Inl (unknown_profile p), w1)
              | Own profile \<Rightarrow> (Inr (assign copied profile), w1)
              | Inherited k \<Rightarrow> (Inr copied, w1)
      else (Inr copied, w))"

definition validate :: "FileService \<Rightarrow> FileServiceConfig \<Rightarrow> world \<Rightarrow> error option" where
  "validate this copied w =
     (case configValidator this of
        None \<Rightarrow> None
      | Some v \<Rightarrow>
          (case v copied of
             None \<Rightarrow> None
           | Some msg \<Rightarrow>
               Some (validation_fail msg (hasProfile (config this) \<and> state_profile w = None))))"

text \<open>
  The configuration as it stands before the ignore predicate is attached: copied, the
  agent resolved, the profile merged, the result validated.
\<close>

definition mergedConfig :: "FileService \<Rightarrow> world \<Rightarrow> (error + FileServiceConfig) \<times> world" where
  "mergedConfig this w =
     (case resolveAgent (config this) (copy_without_profiles (config this)) w of
        Inl e \<Rightarrow> (Inl e, w)
      | Inr copied1 \<Rightarrow>
          (case applyProfile (config this) copied1 w of
             (Inl e, w1) \<Rightarrow> (Inl e, w1)
           | (Inr copied2, w1) \<Rightarrow>
               (case validate this copied2 w1 of
                  Some e \<Rightarrow> (Inl e, w1)
                | None \<Rightarrow> (Inr copied2, w1))))"

definition with_ignore :: "FileServiceConfig \<Rightarrow> (string \<Rightarrow> bool) option \<Rightarrow> ServiceConfig" where
  "with_ignore copied fn =
     \<lparr>sc_agent = agent copied, sc_remotePath = remotePath copied, sc_ignore = fn,
      sc_ignoreFile = ignoreFile copied, sc_profiles = profiles copied,
      sc_others = others copied\<rparr>"

definition getConfig :: "pathlib \<Rightarrow> FileService \<Rightarrow> world \<Rightarrow> (error + ServiceConfig) \<times> world" where
  "getConfig lib this w =
     (case mergedConfig this w of
        (Inl e, w1) \<Rightarrow> (Inl e, w1)
      | (Inr copied, w1) \<Rightarrow>
          (case createIgnoreFn lib this copied w1 of
             (Inl e, w2) \<Rightarrow> (Inl e, w2)
           | (Inr fn, w2) \<Rightarrow> (Inr (with_ignore copied fn), w2)))"

text \<open>The profile that \<open>getConfig\<close> merges, if any.\<close>

definition activeProfile :: "FileServiceConfig \<Rightarrow> world \<Rightarrow> FileServiceConfig option" where
  "activeProfile cfg w =
     (if hasProfile cfg \<and> truthy (state_profile w)
      then map_of (the (profiles cfg)) (the (state_profile w))
      else None)"


text \<open>The \<open>agent\<close> field of that profile.\<close>

definition profileAgent :: "FileServiceConfig \<Rightarrow> world \<Rightarrow> agent_value option" where
  "profileAgent cfg w = (case activeProfile cfg w of None \<Rightarrow> None | Some pr \<Rightarrow> agent pr)"

text \<open>A base \<open>agent\<close> that is missing, or a string that does not start with \<open>$\<close>.\<close>

definition plain_agent :: "agent_value option \<Rightarrow> bool" where
  "plain_agent a =
     (case a of
        None \<Rightarrow> True
      | Some (AgentString s) \<Rightarrow> \<not> prefix ''$'' s
      | Some (AgentInherited k) \<Rightarrow> False)"

text \<open>The explicit pattern list of a configuration, none when the field is missing.\<close>

definition patterns :: "FileServiceConfig \<Rightarrow> string list" where
  "patterns cfg = (case ignore cfg of None \<Rightarrow> [] | Some xs \<Rightarrow> xs)"

section \<open>Schedulers, transfer tasks and the transfer methods\<close>

datatype Event = BEFORE_TRANSFER | AFTER_TRANSFER

text \<open>
  The calls the service makes on its collaborators and the clearing of its own
  collections, in the order in which they happen.
\<close>

datatype effect =
    SchedulerEmpty sched_ref
  | SchedulersCleared
  | TaskCancel task_ref
  | PendingCleared
  | SchedulerStart sched_ref
  | Emit Event "error option" task_ref

text \<open>
  The callback that \<open>run()\<close> registers with \<open>scheduler.onIdle\<close>: a closure over the scheduler
  and over \<open>resolve\<close> of the promise being built (promises are numbered).
\<close>

datatype idle_listener = ResolveRun sched_ref nat

text \<open>
  Modelled from the spec: \<open>class Scheduler\<close> (module \<open>./scheduler\<close>) is a bounded-concurrency
  run queue. It owns a FIFO queue of tasks not yet started, the tasks running and a fixed
  concurrency limit; \<open>add\<close> appends to the queue; \<open>start\<close> begins dispatching queued tasks up
  to the limit, and when a running task finishes the next queued task is dispatched;
  \<open>empty\<close> removes all tasks not yet started and leaves running tasks alone; \<open>size\<close> counts
  queued plus running tasks; \<open>task-started\<close>, \<open>task-done\<close> and \<open>idle\<close> listeners are called
  synchronously with the transition, \<open>idle\<close> when running count and queue length both
  reach zero.
\<close>

record Scheduler =
  concurrency :: nat
  queue :: "task_ref list"
  running :: "task_ref list"
  started :: bool
  idleListeners :: "idle_listener list"

text \<open>Modelled from the spec: a new scheduler, not started, with nothing queued.\<close>

definition new_Scheduler :: "nat \<Rightarrow> Scheduler" where
  "new_Scheduler c = \<lparr>concurrency = c, queue = [], running = [], started = False, idleListeners = []\<rparr>"

text \<open>Modelled from the spec: \<open>Scheduler.size\<close> is the count of queued plus running tasks.\<close>

definition sched_size :: "Scheduler \<Rightarrow> nat" where
  "sched_size sch = length (queue sch) + length (running sch)"

text \<open>
  The objects outside the service: the schedulers by address (those below \<open>next_ref\<close> are
  allocated), the tasks whose \<open>cancel()\<close> was called, the promises of \<open>run()\<close> that are
  resolved (each with the scheduler of its \<open>run()\<close>), and the effects so far.
\<close>

record heap =
  objects :: "sched_ref \<Rightarrow> Scheduler"
  next_ref :: nat
  cancelled :: "task_ref list"
  resolved :: "(nat \<times> sched_ref) list"
  next_promise :: nat
  trace :: "effect list"

definition heap0 :: heap where
  "heap0 = \<lparr>objects = (\<lambda>_. new_Scheduler 0), next_ref = 0, cancelled = [], resolved = [],
            next_promise = 0, trace = []\<rparr>"

definition log_effect :: "effect \<Rightarrow> heap \<Rightarrow> heap" where
  "log_effect e h = h\<lparr>trace := trace h @ [e]\<rparr>"

definition update_sched :: "sched_ref \<Rightarrow> (Scheduler \<Rightarrow> Scheduler) \<Rightarrow> heap \<Rightarrow> heap" where
  "update_sched s f h = h\<lparr>objects := (objects h)(s := f (objects h s))\<rparr>"

text \<open>
  Modelled from the spec: \<open>Scheduler.empty\<close> removes all tasks not yet started; tasks already
  running are unaffected.
\<close>

definition Scheduler_empty :: "sched_ref \<Rightarrow> heap \<Rightarrow> heap" where
  "Scheduler_empty s h = log_effect (SchedulerEmpty s) (update_sched s (\<lambda>sch. sch\<lparr>queue := []\<rparr>) h)"

text \<open>
  Modelled from the spec: \<open>TransferTask.cancel\<close> (module \<open>./transferTask\<close>) sets the task's
  cancellation signal and returns; the task is expected to react to it.
\<close>

definition TransferTask_cancel :: "task_ref \<Rightarrow> heap \<Rightarrow> heap" where
  "TransferTask_cancel t h = log_effect (TaskCancel t) (h\<lparr>cancelled := cancelled h @ [t]\<rparr>)"

text \<open>A resolved promise stays as it is when \<open>resolve\<close> is called again.\<close>

definition resolve :: "nat \<Rightarrow> sched_ref \<Rightarrow> heap \<Rightarrow> heap" where
  "resolve pid s h =
     (if pid \<in> fst ` set (resolved h) then h else h\<lparr>resolved := resolved h @ [(pid, s)]\<rparr>)"

text \<open>\<open>Set.prototype.add\<close> and \<open>delete\<close> on a set kept in insertion order.\<close>

definition Set_add :: "'a \<Rightarrow> 'a list \<Rightarrow> 'a list" where
  "Set_add x xs = (if x \<in> set xs then xs else xs @ [x])"

definition Set_delete :: "'a \<Rightarrow> 'a list \<Rightarrow> 'a list" where
  "Set_delete x xs = removeAll x xs"

fun findIndex :: "('a \<Rightarrow> bool) \<Rightarrow> 'a list \<Rightarrow> nat option" where
  "findIndex P [] = None"
| "findIndex P (x # xs) = (if P x then Some 0 else map_option Suc (findIndex P xs))"

definition isTransferring :: "FileService \<Rightarrow> bool" where
  "isTransferring this = (length (schedulers this) > 0)"

definition storeScheduler :: "sched_ref \<Rightarrow> FileService \<Rightarrow> FileService" where
  "storeScheduler scheduler this = this\<lparr>schedulers := schedulers this @ [scheduler]\<rparr>"

definition removeScheduler :: "sched_ref \<Rightarrow> FileService \<Rightarrow> FileService" where
  "removeScheduler scheduler this =
     (case findIndex (\<lambda>s. s = scheduler) (schedulers this) of
        None \<Rightarrow> this
      | Some index \<Rightarrow>
          this\<lparr>schedulers := take index (schedulers this) @ drop (Suc index) (schedulers this)\<rparr>)"

definition cancelTransferTasks :: "FileService \<times> heap \<Rightarrow> FileService \<times> heap" where
  "cancelTransferTasks st =
     (let this = fst st;
          h1 = foldl (\<lambda>h s. Scheduler_empty s h) (snd st) (schedulers this);
          this1 = this\<lparr>schedulers := []\<rparr>;
          h2 = log_effect SchedulersCleared h1;
          h3 = foldl (\<lambda>h t. TransferTask_cancel t h) h2 (pendingTransferTasks this1);
          this2 = this1\<lparr>pendingTransferTasks := []\<rparr>;
          h4 = log_effect PendingCleared h3
      in (this2, h4))"

text \<open>The listeners that \<open>createTransferScheduler\<close> registers on every scheduler.\<close>

definition onTaskStart :: "task_ref \<Rightarrow> FileService \<times> heap \<Rightarrow> FileService \<times> heap" where
  "onTaskStart task st =
     ((fst st)\<lparr>pendingTransferTasks := Set_add task (pendingTransferTasks (fst st))\<rparr>,
      log_effect (Emit BEFORE_TRANSFER None task) (snd st))"

definition onTaskDone :: "error option \<Rightarrow> task_ref \<Rightarrow> FileService \<times> heap \<Rightarrow> FileService \<times> heap" where
  "onTaskDone err task st =
     ((fst st)\<lparr>pendingTransferTasks := Set_delete task (pendingTransferTasks (fst st))\<rparr>,
      log_effect (Emit AFTER_TRANSFER err task) (snd st))"

text \<open>The listener of \<open>run()\<close>: remove the scheduler, then resolve.\<close>

fun onIdle :: "idle_listener \<Rightarrow> FileService \<times> heap \<Rightarrow> FileService \<times> heap" where
  "onIdle (ResolveRun scheduler pid) st = (removeScheduler scheduler (fst st), resolve pid scheduler (snd st))"

text \<open>
  Modelled from the spec: the scheduler dispatches queued tasks in FIFO order up to its
  concurrency limit, and calls the \<open>task-started\<close> listener for each.
\<close>

definition Scheduler_dispatch :: "sched_ref \<Rightarrow> FileService \<times> heap \<Rightarrow> FileService \<times> heap" where
  "Scheduler_dispatch s st =
     (let sch = objects (snd st) s;
          k = min (concurrency sch - length (running sch)) (length (queue sch));
          ts = take k (queue sch);
          h1 = update_sched s (\<lambda>sch. sch\<lparr>queue := drop k (queue sch), running := running sch @ ts\<rparr>) (snd st)
      in foldl (\<lambda>st t. onTaskStart t st) (fst st, h1) ts)"

text \<open>Modelled from the spec: \<open>Scheduler.start\<close> begins dispatching queued tasks.\<close>

definition Scheduler_start :: "sched_ref \<Rightarrow> FileService \<times> heap \<Rightarrow> FileService \<times> heap" where
  "Scheduler_start s st =
     Scheduler_dispatch s
       (fst st, log_effect (SchedulerStart s) (update_sched s (\<lambda>sch. sch\<lparr>started := True\<rparr>) (snd st)))"

text \<open>
  Modelled from the spec: \<open>Scheduler.add\<close> appends to the pending queue, before or during a
  run; a scheduler that is not started (\<open>autoStart: false\<close>) only queues.
\<close>

definition Scheduler_add :: "sched_ref \<Rightarrow> task_ref \<Rightarrow> FileService \<times> heap \<Rightarrow> FileService \<times> heap" where
  "Scheduler_add s task st =
     (let st1 = (fst st, update_sched s (\<lambda>sch. sch\<lparr>queue := queue sch @ [task]\<rparr>) (snd st))
      in if started (objects (snd st) s) then Scheduler_dispatch s st1 else st1)"

text \<open>
  Modelled from the spec: the \<open>idle\<close> listeners are called in registration order,
  synchronously.
\<close>

definition fireIdle :: "sched_ref \<Rightarrow> FileService \<times> heap \<Rightarrow> FileService \<times> heap" where
  "fireIdle s st = foldl (\<lambda>st l. onIdle l st) st (idleListeners (objects (snd st) s))"

text \<open>
  Modelled from the spec: when a running task finishes, \<open>task-done\<close> fires, then the next
  queued task is dispatched, and \<open>idle\<close> fires when running count and queue length have
  both reached zero.
\<close>

definition Scheduler_taskFinished ::
  "sched_ref \<Rightarrow> task_ref \<Rightarrow> error option \<Rightarrow> FileService \<times> heap \<Rightarrow> FileService \<times> heap" where
  "Scheduler_taskFinished s task err st =
     (if task \<in> set (running (objects (snd st) s))
      then let st1 = (fst st, update_sched s (\<lambda>sch. sch\<lparr>running := remove1 task (running sch)\<rparr>) (snd st));
               st2 = onTaskDone err task st1;
               st3 = Scheduler_dispatch s st2;
               sch = objects (snd st3) s
           in if queue sch = [] \<and> running sch = [] then fireIdle s st3 else st3
      else st)"

text \<open>\<open>createTransferScheduler\<close> and the three members of the handle it returns.\<close>

definition createTransferScheduler :: "nat \<Rightarrow> FileService \<times> heap \<Rightarrow> sched_ref \<times> FileService \<times> heap" where
  "createTransferScheduler c st =
     (let scheduler = next_ref (snd st);
          h1 = (snd st)\<lparr>objects := (objects (snd st))(scheduler := new_Scheduler c),
                        next_ref := Suc scheduler\<rparr>
      in (scheduler, storeScheduler scheduler (fst st), h1))"

definition handle_size :: "sched_ref \<Rightarrow> FileService \<times> heap \<Rightarrow> nat" where
  "handle_size scheduler st = sched_size (objects (snd st) scheduler)"

definition handle_add :: "sched_ref \<Rightarrow> task_ref \<Rightarrow> FileService \<times> heap \<Rightarrow> FileService \<times> heap" where
  "handle_add scheduler task st = Scheduler_add scheduler task st"

definition handle_run :: "sched_ref \<Rightarrow> FileService \<times> heap \<Rightarrow> nat \<times> FileService \<times> heap" where
  "handle_run scheduler st =
     (let pid = next_promise (snd st);
          h0 = (snd st)\<lparr>next_promise := Suc pid\<rparr>
      in if sched_size (objects h0 scheduler) \<le> 0
         then (pid, removeScheduler scheduler (fst st), resolve pid scheduler h0)
         else (pid, Scheduler_start scheduler
                      (fst st,
                       update_sched scheduler
                         (\<lambda>sch. sch\<lparr>idleListeners := idleListeners sch @ [ResolveRun scheduler pid]\<rparr>) h0)))"

subsection \<open>Executions\<close>

text \<open>
  What can happen to a service: the calls of its clients, on handles that
  \<open>createTransferScheduler\<close> has returned, and the end of a running task.
\<close>

datatype action =
    CreateTransferScheduler nat
  | HandleAdd sched_ref task_ref
  | HandleRun sched_ref
  | TaskFinished sched_ref task_ref "error option"
  | CancelTransferTasks

fun step :: "FileService \<times> heap \<Rightarrow> action \<Rightarrow> FileService \<times> heap" where
  "step st (CreateTransferScheduler c) = snd (createTransferScheduler c st)"
| "step st (HandleAdd s t) = (if s < next_ref (snd st) then handle_add s t st else st)"
| "step st (HandleRun s) = (if s < next_ref (snd st) then snd (handle_run s st) else st)"
| "step st (TaskFinished s t err) =
     (if s < next_ref (snd st) then Scheduler_taskFinished s t err st else st)"
| "step st CancelTransferTasks = cancelTransferTasks st"

definition execute :: "FileService \<times> heap \<Rightarrow> action list \<Rightarrow> FileService \<times> heap" where
  "execute st acts = foldl step st acts"

definition holdsTasks :: "heap \<Rightarrow> sched_ref \<Rightarrow> bool" where
  "holdsTasks h s = (sched_size (objects h s) > 0)"

subsection \<open>Well-formed states\<close>

fun listener_sched :: "idle_listener \<Rightarrow> sched_ref" where
  "listener_sched (ResolveRun s pid) = s"

fun listener_promise :: "idle_listener \<Rightarrow> nat" where
  "listener_promise (ResolveRun s pid) = pid"

text \<open>
  What every execution keeps: the active-scheduler list has no duplicates and holds
  allocated schedulers only; a resolved promise belongs to an allocated scheduler that is
  not in the list; promises in use are below the next free number.
\<close>

definition wf_state :: "FileService \<times> heap \<Rightarrow> bool" where
  "wf_state st =
     (distinct (schedulers (fst st))
      \<and> (\<forall>s \<in> set (schedulers (fst st)). s < next_ref (snd st))
      \<and> (\<forall>r \<in> set (resolved (snd st)).
            snd r < next_ref (snd st) \<and> snd r \<notin> set (schedulers (fst st))
            \<and> fst r < next_promise (snd st))
      \<and> (\<forall>s. \<forall>l \<in> set (idleListeners (objects (snd st) s)).
            listener_sched l < next_ref (snd st) \<and> listener_promise l < next_promise (snd st)))"

text \<open>The part of the state that \<open>wf_state\<close> reads is the same in both states.\<close>

definition same_core :: "FileService \<times> heap \<Rightarrow> FileService \<times> heap \<Rightarrow> bool" where
  "same_core st st' =
     (schedulers (fst st') = schedulers (fst st)
      \<and> next_ref (snd st') = next_ref (snd st)
      \<and> resolved (snd st') = resolved (snd st)
      \<and> next_promise (snd st') = next_promise (snd st)
      \<and> (\<forall>s. idleListeners (objects (snd st') s) = idleListeners (objects (snd st) s)))"

text \<open>The client calls that only queue work or open a new batch.\<close>

fun queues_only :: "action \<Rightarrow> bool" where
  "queues_only (HandleAdd s t) = True"
| "queues_only (CreateTransferScheduler c) = True"
| "queues_only a = False"

section \<open>Concrete configurations and contexts\<close>

text \<open>
  Simple stand-ins for the path functions: paths are taken as already normal, the
  relative path drops the base and its separator, and a pattern matches the paths it
  is a prefix of.
\<close>

definition lib0 :: pathlib where
  "lib0 = \<lparr>normalize = (\<lambda>p. p),
           relative = (\<lambda>b p. drop (length b + 1) p),
           upath_relative = (\<lambda>b p. drop (length (case b of None \<Rightarrow> [] | Some r \<Rightarrow> r) + 1) p),
           ignores = (\<lambda>ps p. list_ex (\<lambda>x. prefix x p) ps)\<rparr>"

definition world0 :: world where
  "world0 = \<lparr>env = Map.empty, state_profile = None, ignoreFileCache = Map.empty,
             disk = Map.empty, fs_calls = [], logged = []\<rparr>"

definition cfg_plain :: FileServiceConfig where
  "cfg_plain = FileServiceConfig None (Some ''/remote'') (Some [''build/'']) None None Map.empty"

definition service_plain :: FileService where
  "service_plain = new_FileService ''/proj'' ''/proj'' cfg_plain"

definition cfg_noignore :: FileServiceConfig where
  "cfg_noignore = FileServiceConfig None (Some ''/remote'') (Some []) None None Map.empty"

definition service_noignore :: FileService where
  "service_noignore = new_FileService ''/proj'' ''/proj'' cfg_noignore"

definition cfg_ignfile :: FileServiceConfig where
  "cfg_ignfile = FileServiceConfig None (Some ''/remote'') (Some [''build/''])
                   (Some ''/proj/.sftpignore'') None Map.empty"

definition world_file :: world where
  "world_file =
     world0\<lparr>disk := [''/proj/.sftpignore'' \<mapsto> File (''node_modules'' @ [CHR 0x0A] @ ''*.log'')]\<rparr>"

definition profile_dev :: FileServiceConfig where
  "profile_dev = FileServiceConfig (Some (AgentString ''pageant'')) (Some ''/srv/dev'')
                   None None None
                   [''host'' \<mapsto> JStr ''dev.example.com'']"

definition cfg_profiles :: FileServiceConfig where
  "cfg_profiles = FileServiceConfig (Some (AgentString ''$SSH_AUTH_SOCK'')) (Some ''/remote'')
                    (Some [''build/'']) None (Some [(''dev'', profile_dev)])
                    [''host'' \<mapsto> JStr ''example.com'', ''port'' \<mapsto> JNum 22]"

definition service_profiles :: FileService where
  "service_profiles = new_FileService ''/proj'' ''/proj'' cfg_profiles"

definition world_dev :: world where
  "world_dev = world0\<lparr>env := [''SSH_AUTH_SOCK'' \<mapsto> ''/tmp/agent.sock''],
                       state_profile := Some ''dev''\<rparr>"

definition world_prod :: world where
  "world_prod = world_dev\<lparr>state_profile := Some ''prod''\<rparr>"

definition world_unset :: world where
  "world_unset = world0\<lparr>state_profile := Some ''prod''\<rparr>"

definition world_empty :: world where
  "world_empty = world0\<lparr>env := [''SSH_AUTH_SOCK'' \<mapsto> []]\<rparr>"

text \<open>
  Two executions on a new service: one scheduler just created; and one scheduler of
  concurrency 1 that was given the tasks 7 and 8 and then run, so that 7 is running and
  8 is queued.
\<close>

definition st_created :: "FileService \<times> heap" where
  "st_created = execute (service_plain, heap0) [CreateTransferScheduler 1]"

definition st_running :: "FileService \<times> heap" where
  "st_running = execute (service_plain, heap0)
                  [CreateTransferScheduler 1, HandleAdd 0 7, HandleAdd 0 8, HandleRun 0]"

definition st_done :: "FileService \<times> heap" where
  "st_done = execute (service_plain, heap0)
               [CreateTransferScheduler 1, HandleAdd 0 7, HandleRun 0, TaskFinished 0 7 None]"

section \<open>Evaluation and auxiliary facts\<close>

lemmas config_eval =
  getConfig_def mergedConfig_def resolveAgent_def applyProfile_def validate_def hasProfile_def
  createIgnoreFn_def filesIgnoredFromConfig_def copy_without_profiles_def set_agent_def assign_def
  over_def truthy_def with_ignore_def new_FileService_def log_fs_def Let_def
  get_property_def Object_prototype_members_def

lemma sublist_mid: "sublist x (a @ x @ b)"
  unfolding sublist_def by blast

lemma error_kinds_distinct [simp]:
  "env_not_found n \<noteq> validation_fail m h"
  "unknown_profile p \<noteq> validation_fail m h"
  "missing_ignore_file f \<noteq> validation_fail m h"
  "Error ''EISDIR: illegal operation on a directory, read'' \<noteq> validation_fail m h"
  "unknown_profile p \<noteq> env_not_found n"
  "missing_ignore_file f \<noteq> env_not_found n"
  "Error ''EISDIR: illegal operation on a directory, read'' \<noteq> env_not_found n"
  "agent_type_error \<noteq> validation_fail m h"
  "agent_type_error \<noteq> env_not_found n"
  by (simp_all add: env_not_found_def unknown_profile_def missing_ignore_file_def validation_fail_def
      agent_type_error_def)

lemmas error_kinds_distinct_sym [simp] = error_kinds_distinct [symmetric]

subsection \<open>The ignore resolver\<close>

lemma ignoreFunc_root: "relativePath lib lc rc p = [] \<Longrightarrow> \<not> ignoreFunc lib lc rc ps p"
  by (simp add: ignoreFunc_def)

lemma createIgnoreFn_Some:
  "fst (createIgnoreFn lib this cfg w) = Inr (Some f) \<Longrightarrow>
   \<exists>ps. f = ignoreFunc lib (baseDir this) (remotePath cfg) ps"
  by (auto simp: createIgnoreFn_def Let_def split: prod.splits sum.splits if_splits)

lemma filesIgnored_cached:
  assumes "ignoreFile cfg = Some f" "f \<noteq> []" "ignoreFileCache w f = Some ls"
  shows "filesIgnoredFromConfig cfg w = (Inr (patterns cfg @ ls), w)"
  using assms
  by (auto simp: filesIgnoredFromConfig_def truthy_def patterns_def split: option.splits)

lemma filesIgnored_miss:
  assumes "ignoreFile cfg = Some f" "f \<noteq> []" "ignoreFileCache w f = None"
    and "disk w f = Some (File content)"
  shows "filesIgnoredFromConfig cfg w =
           (Inr (patterns cfg @ split_lines content),
            w\<lparr>fs_calls := fs_calls w @ [ExistsSync f, ReadFileSync f],
              ignoreFileCache := (ignoreFileCache w)(f \<mapsto> split_lines content)\<rparr>)"
  using assms
  by (auto simp: filesIgnoredFromConfig_def truthy_def patterns_def log_fs_def Let_def
      split: option.splits)

lemma filesIgnored_error:
  "filesIgnoredFromConfig cfg w = (Inl e, w1) \<Longrightarrow>
     (\<exists>f. e = missing_ignore_file f) \<or> e = Error ''EISDIR: illegal operation on a directory, read''"
  by (auto simp: filesIgnoredFromConfig_def Let_def split: if_splits option.splits node.splits)

lemma createIgnoreFn_error:
  "createIgnoreFn lib this cfg w = (Inl e, w1) \<Longrightarrow>
     (\<exists>f. e = missing_ignore_file f) \<or> e = Error ''EISDIR: illegal operation on a directory, read''"
  using filesIgnored_error
  by (fastforce simp: createIgnoreFn_def Let_def split: prod.splits sum.splits if_splits)

subsection \<open>The stages of getConfig\<close>

lemma resolveAgent_error:
  "resolveAgent cfg copied w = Inl e \<Longrightarrow> (\<exists>n. e = env_not_found n) \<or> e = agent_type_error"
  by (auto simp: resolveAgent_def Let_def
      split: if_splits option.splits agent_value.splits property.splits)

lemma applyProfile_error:
  "applyProfile cfg copied w = (Inl e, w1) \<Longrightarrow> \<exists>p. e = unknown_profile p"
  by (auto simp: applyProfile_def Let_def split: if_splits property.splits)

lemma validate_error:
  "validate this copied w = Some e \<Longrightarrow> \<exists>m h. e = validation_fail m h"
  by (auto simp: validate_def split: option.splits)

lemma mergedConfig_no_validator:
  assumes "configValidator this = None"
  shows "mergedConfig this w =
     (case resolveAgent (config this) (copy_without_profiles (config this)) w of
        Inl e \<Rightarrow> (Inl e, w)
      | Inr copied1 \<Rightarrow> applyProfile (config this) copied1 w)"
  using assms by (auto simp: mergedConfig_def validate_def split: sum.splits prod.splits)

lemma getConfig_cases:
  "getConfig lib this w = (r, w2) \<Longrightarrow>
    (\<exists>w1 e. mergedConfig this w = (Inl e, w1) \<and> r = Inl e \<and> w2 = w1)
  \<or> (\<exists>w1 copied e. mergedConfig this w = (Inr copied, w1)
        \<and> createIgnoreFn lib this copied w1 = (Inl e, w2) \<and> r = Inl e)
  \<or> (\<exists>w1 copied fn. mergedConfig this w = (Inr copied, w1)
        \<and> createIgnoreFn lib this copied w1 = (Inr fn, w2) \<and> r = Inr (with_ignore copied fn))"
  unfolding getConfig_def by (auto split: sum.splits prod.splits)

lemma getConfig_success:
  assumes "fst (getConfig lib this w) = Inr sc"
  shows "\<exists>m w1 fn w2. mergedConfig this w = (Inr m, w1)
           \<and> createIgnoreFn lib this m w1 = (Inr fn, w2) \<and> sc = with_ignore m fn"
proof -
  obtain r w2 where g: "getConfig lib this w = (r, w2)" by (cases "getConfig lib this w")
  with assms have "r = Inr sc" by simp
  with getConfig_cases [OF g] show ?thesis by auto
qed

lemma getConfig_error:
  assumes "fst (getConfig lib this w) = Inl e"
  shows "(\<exists>w1. mergedConfig this w = (Inl e, w1))
       \<or> (\<exists>f. e = missing_ignore_file f) \<or> e = Error ''EISDIR: illegal operation on a directory, read''"
proof -
  obtain r w2 where g: "getConfig lib this w = (r, w2)" by (cases "getConfig lib this w")
  with assms have r: "r = Inl e" by simp
  from getConfig_cases [OF g] r show ?thesis
    by (auto dest: createIgnoreFn_error)
qed

lemma mergedConfig_success:
  assumes "mergedConfig this w = (Inr m, w1)"
  shows "\<exists>copied. resolveAgent (config this) (copy_without_profiles (config this)) w = Inr copied
           \<and> m = (case activeProfile (config this) w of None \<Rightarrow> copied | Some pr \<Rightarrow> assign copied pr)"
  using assms unfolding mergedConfig_def applyProfile_def activeProfile_def get_property_def
  by (auto simp: Let_def split: sum.splits prod.splits option.splits if_splits)

lemma mergedConfig_error_after_agent:
  assumes "mergedConfig this w = (Inl e, w1)"
    and "resolveAgent (config this) (copy_without_profiles (config this)) w = Inr copied"
  shows "(\<exists>p. e = unknown_profile p) \<or> (\<exists>m h. e = validation_fail m h)"
  using assms unfolding mergedConfig_def
  by (auto split: sum.splits prod.splits option.splits dest: applyProfile_error validate_error)

lemma resolveAgent_fields:
  assumes "resolveAgent cfg (copy_without_profiles cfg) w = Inr copied"
  shows "remotePath copied = remotePath cfg \<and> ignore copied = ignore cfg
       \<and> ignoreFile copied = ignoreFile cfg \<and> profiles copied = None \<and> others copied = others cfg"
  using assms
  by (auto simp: resolveAgent_def copy_without_profiles_def set_agent_def Let_def
      split: if_splits option.splits agent_value.splits property.splits)

lemma resolveAgent_dollar:
  assumes "agent cfg = Some (AgentString (CHR ''$'' # name))"
    and "env w name = None \<longrightarrow> name \<notin> set Object_prototype_members"
  shows "resolveAgent cfg copied w =
          (if truthy (env w name) then Inr (set_agent (AgentString (the (env w name))) copied)
           else Inl (env_not_found name))"
  using assms by (auto simp: resolveAgent_def get_property_def truthy_def Let_def split: option.splits)

lemma resolveAgent_plain:
  assumes "plain_agent (agent cfg)"
  shows "resolveAgent cfg copied w = Inr copied"
  using assms
  by (auto simp: resolveAgent_def plain_agent_def split: option.splits agent_value.splits)

text \<open>
  The reads of inherited members: a variable that is not set but is named like a member
  of \<open>Object.prototype\<close> puts that member into \<open>agent\<close>, and a profile name of that kind
  that is no key of the map merges nothing.
\<close>

lemma resolveAgent_inherited:
  assumes "agent cfg = Some (AgentString (CHR ''$'' # name))"
    and "env w name = None" and "name \<in> set Object_prototype_members"
  shows "resolveAgent cfg copied w = Inr (set_agent (AgentInherited name) copied)"
  using assms by (simp add: resolveAgent_def get_property_def Let_def)

lemma applyProfile_inherited:
  assumes "hasProfile cfg" and "state_profile w = Some p" and "p \<noteq> []"
    and "map_of (the (profiles cfg)) p = None" and "p \<in> set Object_prototype_members"
  shows "fst (applyProfile cfg copied w) = Inr copied"
  using assms by (simp add: applyProfile_def get_property_def truthy_def Let_def)

lemma filesIgnored_cache_kept:
  "ignoreFileCache w f = Some ls \<Longrightarrow>
   ignoreFileCache (snd (filesIgnoredFromConfig c w)) f = Some ls"
  by (auto simp: filesIgnoredFromConfig_def log_fs_def Let_def
      split: option.splits node.splits)

lemma createIgnoreFn_world:
  "snd (createIgnoreFn lib this cfg w) = snd (filesIgnoredFromConfig cfg w)"
  by (simp add: createIgnoreFn_def Let_def split: prod.splits sum.splits)

lemma applyProfile_cache:
  "ignoreFileCache (snd (applyProfile cfg copied w)) = ignoreFileCache w"
  by (simp add: applyProfile_def Let_def split: property.splits)

lemma mergedConfig_cache:
  "ignoreFileCache (snd (mergedConfig this w)) = ignoreFileCache w"
proof (cases "resolveAgent (config this) (copy_without_profiles (config this)) w")
  case (Inl e)
  then show ?thesis by (simp add: mergedConfig_def)
next
  case (Inr copied1)
  obtain r w1 where a: "applyProfile (config this) copied1 w = (r, w1)"
    by (cases "applyProfile (config this) copied1 w")
  from applyProfile_cache [of "config this" copied1 w] a
  have "ignoreFileCache w1 = ignoreFileCache w" by simp
  then show ?thesis using Inr a
    by (simp add: mergedConfig_def split: sum.splits option.splits)
qed

lemma getConfig_world:
  "snd (getConfig lib this w)
     = (case mergedConfig this w of
          (Inl e, w1) \<Rightarrow> w1
        | (Inr copied, w1) \<Rightarrow> snd (filesIgnoredFromConfig copied w1))"
  using createIgnoreFn_world
  by (auto simp: getConfig_def split: prod.splits sum.splits) (metis snd_conv)+

lemma getConfig_cache_kept:
  assumes "ignoreFileCache w f = Some ls"
  shows "ignoreFileCache (snd (getConfig lib this w)) f = Some ls"
proof -
  obtain r w1 where m: "mergedConfig this w = (r, w1)" by (cases "mergedConfig this w")
  from mergedConfig_cache [of this w] m assms have c: "ignoreFileCache w1 f = Some ls" by simp
  show ?thesis using m c filesIgnored_cache_kept [OF c]
    by (simp add: getConfig_world split: sum.splits)
qed

section \<open>The ignore predicate\<close>

text \<open>
  C3. Whenever the ignore predicate of a configuration exists, it answers \<open>false\<close> for every
  path whose relative path under the matched root (the local base directory when the
  normalized path starts with it, the remote root otherwise) is the empty string,
  whatever the patterns are: the root itself is never excluded.
\<close>

theorem ignore_root_never_excluded:
  assumes "fst (createIgnoreFn lib this cfg w) = Inr (Some f)"
    and "relativePath lib (baseDir this) (remotePath cfg) fsPath = []"
  shows "\<not> f fsPath"
  using createIgnoreFn_Some [OF assms(1)] assms(2) ignoreFunc_root by blast

theorem ignore_root_never_excluded_witness:
  "fst (createIgnoreFn lib0 service_plain cfg_plain world0)
     = Inr (Some (ignoreFunc lib0 ''/proj'' (Some ''/remote'') [''build/'']))
   \<and> relativePath lib0 (baseDir service_plain) (remotePath cfg_plain) ''/proj'' = []
   \<and> \<not> ignoreFunc lib0 ''/proj'' (Some ''/remote'') [''build/''] ''/proj''
   \<and> ignoreFunc lib0 ''/proj'' (Some ''/remote'') [''build/''] ''/proj/build/x.js''"
proof -
  have h1: "fst (createIgnoreFn lib0 service_plain cfg_plain world0)
     = Inr (Some (ignoreFunc lib0 ''/proj'' (Some ''/remote'') [''build/'']))"
    by (simp add: createIgnoreFn_def filesIgnoredFromConfig_def cfg_plain_def service_plain_def
        new_FileService_def truthy_def world0_def)
  have h2: "relativePath lib0 (baseDir service_plain) (remotePath cfg_plain) ''/proj'' = []"
    by (simp add: relativePath_def lib0_def service_plain_def new_FileService_def cfg_plain_def)
  have h3: "ignoreFunc lib0 ''/proj'' (Some ''/remote'') [''build/''] ''/proj/build/x.js''"
    by (simp add: ignoreFunc_def relativePath_def lib0_def)
  from ignore_root_never_excluded [OF h1 h2] h1 h2 h3 show ?thesis by simp
qed

text \<open>
  C4. For a configuration with an empty (or missing) \<open>ignore\<close> list and no \<open>ignoreFile\<close>, no
  predicate is built: \<open>_createIgnoreFn\<close> returns \<open>null\<close> and touches nothing, and when this
  is the merged configuration of \<open>getConfig\<close>, the \<open>ignore\<close> field of the result is \<open>null\<close>,
  not a function.
\<close>

theorem no_patterns_no_predicate:
  assumes "ignore cfg = None \<or> ignore cfg = Some []" and "\<not> truthy (ignoreFile cfg)"
  shows "createIgnoreFn lib this cfg w = (Inr None, w)
       \<and> (mergedConfig this w0 = (Inr cfg, w) \<longrightarrow>
            getConfig lib this w0 = (Inr (with_ignore cfg None), w)
            \<and> sc_ignore (with_ignore cfg None) = None)"
proof -
  have a: "filesIgnoredFromConfig cfg w = (Inr [], w)"
    using assms by (auto simp: filesIgnoredFromConfig_def)
  have b: "createIgnoreFn lib this cfg w = (Inr None, w)"
    by (simp add: createIgnoreFn_def a)
  show ?thesis by (simp add: b getConfig_def with_ignore_def)
qed

theorem no_patterns_no_predicate_witness:
  "(ignore cfg_noignore = None \<or> ignore cfg_noignore = Some [])
   \<and> \<not> truthy (ignoreFile cfg_noignore)
   \<and> mergedConfig service_noignore world0 = (Inr cfg_noignore, world0)
   \<and> createIgnoreFn lib0 service_noignore cfg_noignore world0 = (Inr None, world0)
   \<and> map_sum id sc_ignore (fst (getConfig lib0 service_noignore world0)) = Inr None"
proof -
  have h1: "ignore cfg_noignore = None \<or> ignore cfg_noignore = Some []"
    by (simp add: cfg_noignore_def)
  have h2: "\<not> truthy (ignoreFile cfg_noignore)"
    by (simp add: cfg_noignore_def truthy_def)
  have h3: "mergedConfig service_noignore world0 = (Inr cfg_noignore, world0)"
    by (simp add: config_eval service_noignore_def cfg_noignore_def world0_def)
  from no_patterns_no_predicate [OF h1 h2, of lib0 service_noignore world0 world0] h1 h2 h3
  show ?thesis by simp
qed

text \<open>
  C5. When \<open>ignoreFile\<close> is set (a non-empty path), the path is not in the ignore-file cache
  and nothing exists at it on disk, resolving the ignore patterns throws an error whose
  message is \<open>File <path> not found. Check your config of "ignoreFile"\<close>: it names the
  missing path and the configuration key. The error leaves \<open>_createIgnoreFn\<close> and
  \<open>getConfig\<close> as it is.
\<close>

theorem missing_ignore_file_fails:
  assumes "ignoreFile cfg = Some f" and "f \<noteq> []"
    and "ignoreFileCache w f = None" and "disk w f = None"
  shows "fst (filesIgnoredFromConfig cfg w)
           = Inl (Error (''File '' @ f @ '' not found. Check your config of ''
                         @ dquote @ ''ignoreFile'' @ dquote))
       \<and> fst (createIgnoreFn lib this cfg w) = Inl (missing_ignore_file f)
       \<and> (mergedConfig this w0 = (Inr cfg, w) \<longrightarrow>
            fst (getConfig lib this w0) = Inl (missing_ignore_file f))
       \<and> sublist f (message (missing_ignore_file f))
       \<and> sublist ''ignoreFile'' (message (missing_ignore_file f))"
proof -
  have a: "fst (filesIgnoredFromConfig cfg w) = Inl (missing_ignore_file f)"
    using assms by (simp add: filesIgnoredFromConfig_def truthy_def Let_def)
  have b: "sublist f (message (missing_ignore_file f))"
    using sublist_mid [of f "''File ''"
        "'' not found. Check your config of '' @ dquote @ ''ignoreFile'' @ dquote"]
    by (simp add: missing_ignore_file_def)
  have c: "sublist ''ignoreFile'' (message (missing_ignore_file f))"
    using sublist_mid [of "''ignoreFile''"
        "''File '' @ f @ '' not found. Check your config of '' @ dquote" dquote]
    by (simp add: missing_ignore_file_def)
  have d: "fst (createIgnoreFn lib this cfg w) = Inl (missing_ignore_file f)"
    using a by (cases "filesIgnoredFromConfig cfg w") (auto simp: createIgnoreFn_def)
  have e: "mergedConfig this w0 = (Inr cfg, w) \<longrightarrow>
             fst (getConfig lib this w0) = Inl (missing_ignore_file f)"
    using d by (auto simp: getConfig_def split: prod.splits sum.splits)
  have a': "fst (filesIgnoredFromConfig cfg w)
           = Inl (Error (''File '' @ f @ '' not found. Check your config of ''
                         @ dquote @ ''ignoreFile'' @ dquote))"
    using a by (simp add: missing_ignore_file_def)
  show ?thesis using a' b c d e by blast
qed

theorem missing_ignore_file_fails_witness:
  "ignoreFile cfg_ignfile = Some ''/proj/.sftpignore''
   \<and> ignoreFileCache world0 ''/proj/.sftpignore'' = None
   \<and> disk world0 ''/proj/.sftpignore'' = None
   \<and> fst (filesIgnoredFromConfig cfg_ignfile world0)
       = Inl (Error (''File /proj/.sftpignore not found. Check your config of ''
                     @ dquote @ ''ignoreFile'' @ dquote))"
proof -
  have h1: "ignoreFile cfg_ignfile = Some ''/proj/.sftpignore''" by (simp add: cfg_ignfile_def)
  have h2: "''/proj/.sftpignore'' \<noteq> []" by simp
  have h3: "ignoreFileCache world0 ''/proj/.sftpignore'' = None" by (simp add: world0_def)
  have h4: "disk world0 ''/proj/.sftpignore'' = None" by (simp add: world0_def)
  from missing_ignore_file_fails [OF h1 h2 h3 h4] h1 h3 h4 show ?thesis by simp
qed

text \<open>
  C6. When \<open>ignoreFile\<close> is set and the file exists, two resolutions in a row read the file
  at most once. After the first one the cache holds the line list under the file path
  (the lines just read, or the lines that were cached before); the second one returns
  the cached lines after the explicit patterns and leaves the context as it was: no call
  into the file system, no change of the cache. The same holds for every later
  resolution: no resolution and no \<open>getConfig\<close> changes a cached entry, and with the
  entry in the cache a resolution returns the cached lines and changes nothing.
\<close>

theorem ignore_file_read_once:
  assumes "ignoreFile c1 = Some f" and "ignoreFile c2 = Some f" and "f \<noteq> []"
    and "disk w f = Some (File content)"
  shows "let r1 = filesIgnoredFromConfig c1 w;
             r2 = filesIgnoredFromConfig c2 (snd r1);
             ls = (case ignoreFileCache w f of None \<Rightarrow> split_lines content | Some cached \<Rightarrow> cached)
         in fst r1 = Inr (patterns c1 @ ls)
          \<and> ignoreFileCache (snd r1) f = Some ls
          \<and> fst r2 = Inr (patterns c2 @ ls)
          \<and> snd r2 = snd r1
          \<and> count_list (fs_calls (snd r2)) (ReadFileSync f)
              \<le> count_list (fs_calls w) (ReadFileSync f) + 1
          \<and> (\<forall>w'. ignoreFileCache w' f = Some ls \<longrightarrow>
                 filesIgnoredFromConfig c2 w' = (Inr (patterns c2 @ ls), w'))
          \<and> (\<forall>c' w'. ignoreFileCache w' f = Some ls \<longrightarrow>
                 ignoreFileCache (snd (filesIgnoredFromConfig c' w')) f = Some ls)
          \<and> (\<forall>lib this w'. ignoreFileCache w' f = Some ls \<longrightarrow>
                 ignoreFileCache (snd (getConfig lib this w')) f = Some ls)"
proof -
  let ?ls = "case ignoreFileCache w f of None \<Rightarrow> split_lines content | Some cached \<Rightarrow> cached"
  have later: "\<forall>w'. ignoreFileCache w' f = Some ?ls \<longrightarrow>
                 filesIgnoredFromConfig c2 w' = (Inr (patterns c2 @ ?ls), w')"
    using filesIgnored_cached [OF assms(2) assms(3)] by blast
  have keep: "\<forall>c' w'. ignoreFileCache w' f = Some ?ls \<longrightarrow>
                 ignoreFileCache (snd (filesIgnoredFromConfig c' w')) f = Some ?ls"
    using filesIgnored_cache_kept by blast
  have keep': "\<forall>lib this w'. ignoreFileCache w' f = Some ?ls \<longrightarrow>
                 ignoreFileCache (snd (getConfig lib this w')) f = Some ?ls"
    using getConfig_cache_kept by blast
  show ?thesis
  proof (cases "ignoreFileCache w f")
    case None
    note m = filesIgnored_miss [OF assms(1) assms(3) None assms(4)]
    let ?w1 = "w\<lparr>fs_calls := fs_calls w @ [ExistsSync f, ReadFileSync f],
                ignoreFileCache := (ignoreFileCache w)(f \<mapsto> split_lines content)\<rparr>"
    have c: "ignoreFileCache ?w1 f = Some (split_lines content)" by simp
    note h = filesIgnored_cached [OF assms(2) assms(3) c]
    show ?thesis using None later keep keep' by (simp add: m h Let_def)
  next
    case (Some ls)
    note h1 = filesIgnored_cached [OF assms(1) assms(3) Some]
    note h2 = filesIgnored_cached [OF assms(2) assms(3) Some]
    show ?thesis using Some later keep keep' by (simp add: h1 h2 Let_def)
  qed
qed

theorem ignore_file_read_once_witness:
  "ignoreFile cfg_ignfile = Some ''/proj/.sftpignore''
   \<and> disk world_file ''/proj/.sftpignore'' = Some (File (''node_modules'' @ [CHR 0x0A] @ ''*.log''))
   \<and> fst (filesIgnoredFromConfig cfg_ignfile world_file) = Inr [''build/'', ''node_modules'', ''*.log'']
   \<and> fs_calls (snd (filesIgnoredFromConfig cfg_ignfile world_file))
       = [ExistsSync ''/proj/.sftpignore'', ReadFileSync ''/proj/.sftpignore'']
   \<and> filesIgnoredFromConfig cfg_ignfile (snd (filesIgnoredFromConfig cfg_ignfile world_file))
       = (Inr [''build/'', ''node_modules'', ''*.log''], snd (filesIgnoredFromConfig cfg_ignfile world_file))"
proof -
  have h1: "ignoreFile cfg_ignfile = Some ''/proj/.sftpignore''" by (simp add: cfg_ignfile_def)
  have h2: "''/proj/.sftpignore'' \<noteq> []" by simp
  have h4: "disk world_file ''/proj/.sftpignore''
              = Some (File (''node_modules'' @ [CHR 0x0A] @ ''*.log''))"
    by (simp add: world_file_def world0_def)
  have h5: "ignoreFileCache world_file ''/proj/.sftpignore'' = None"
    by (simp add: world_file_def world0_def)
  have h6: "split_lines (''node_modules'' @ [CHR 0x0A] @ ''*.log'') = [''node_modules'', ''*.log'']"
    by (simp add: cons_head_def)
  have h7: "patterns cfg_ignfile = [''build/'']" by (simp add: patterns_def cfg_ignfile_def)
  have h8: "fs_calls (snd (filesIgnoredFromConfig cfg_ignfile world_file))
       = [ExistsSync ''/proj/.sftpignore'', ReadFileSync ''/proj/.sftpignore'']"
  proof -
    have "fs_calls world_file = []" by (simp add: world_file_def world0_def)
    then show ?thesis by (simp add: filesIgnored_miss [OF h1 h2 h5 h4])
  qed
  from ignore_file_read_once [OF h1 h1 h2 h4] h1 h4 h5 h6 h7 h8 show ?thesis
    by (simp add: Let_def prod_eq_iff)
qed

section \<open>Profiles, the agent indirection and validation\<close>

text \<open>
  C7 (amended). For a raw configuration with a non-empty profiles map and an active,
  non-empty profile name, provided the \<open>agent\<close> indirection has succeeded: when the name
  is not a key of the map and not the name of a member of \<open>Object.prototype\<close>,
  \<open>getConfig\<close> throws the error \<open>Unkown Profile "<name>". ...\<close>, whose message contains
  the name; when it is a key of the map, and \<open>getConfig\<close> returns, every field of the
  result other than \<open>ignore\<close> is the profile's where the profile has the field and the
  base's (with the agent resolved and \<open>profiles\<close> stripped) where it has not, and the
  \<open>ignore\<close> predicate is the one built from the merged object.
\<close>

theorem profile_lookup_and_merge:
  assumes hp: "hasProfile (config this)"
    and sp: "state_profile w = Some p" and ne: "p \<noteq> []"
    and ra: "resolveAgent (config this) (copy_without_profiles (config this)) w = Inr copied"
  shows "(map_of (the (profiles (config this))) p = None \<and> p \<notin> set Object_prototype_members
            \<longrightarrow>
            fst (getConfig lib this w) = Inl (unknown_profile p)
          \<and> sublist p (message (unknown_profile p)))
       \<and> (\<forall>profile sc. map_of (the (profiles (config this))) p = Some profile
             \<longrightarrow> fst (getConfig lib this w) = Inr sc \<longrightarrow>
               sc_agent sc = (case agent profile of Some v \<Rightarrow> Some v | None \<Rightarrow> agent copied)
             \<and> sc_remotePath sc = (case remotePath profile of Some v \<Rightarrow> Some v
                                    | None \<Rightarrow> remotePath (config this))
             \<and> sc_ignoreFile sc = (case ignoreFile profile of Some v \<Rightarrow> Some v
                                    | None \<Rightarrow> ignoreFile (config this))
             \<and> sc_profiles sc = profiles profile
             \<and> (\<forall>k. sc_others sc k = (case others profile k of Some v \<Rightarrow> Some v
                                        | None \<Rightarrow> others (config this) k))
             \<and> (\<exists>w1 w2. createIgnoreFn lib this (assign copied profile) w1
                           = (Inr (sc_ignore sc), w2)))"
proof (intro conjI impI allI)
  assume n: "map_of (the (profiles (config this))) p = None \<and> p \<notin> set Object_prototype_members"
  have "applyProfile (config this) copied w
          = (Inl (unknown_profile p), w\<lparr>logged := logged w @ [''Using profile: '' @ p]\<rparr>)"
    using hp sp ne n by (simp add: applyProfile_def get_property_def truthy_def Let_def)
  then show "fst (getConfig lib this w) = Inl (unknown_profile p)"
    using ra by (simp add: getConfig_def mergedConfig_def)
  show "sublist p (message (unknown_profile p))"
    using sublist_mid [of p "''Unkown Profile '' @ dquote"
        "dquote @ ''.'' @ '' Please check your profile setting.''
            @ '' You can set a profile by running command `SFTP: Set Profile`.''"]
    by (simp add: unknown_profile_def)
next
  fix profile sc
  assume pr: "map_of (the (profiles (config this))) p = Some profile"
    and s: "fst (getConfig lib this w) = Inr sc"
  from getConfig_success [OF s] obtain m w1 fn w2 where
    m: "mergedConfig this w = (Inr m, w1)" and ci: "createIgnoreFn lib this m w1 = (Inr fn, w2)"
    and sc: "sc = with_ignore m fn" by blast
  have ap: "activeProfile (config this) w = Some profile"
    using hp sp ne pr by (simp add: activeProfile_def truthy_def)
  from mergedConfig_success [OF m] ra ap have mm: "m = assign copied profile" by simp
  note f = resolveAgent_fields [OF ra]
  show "sc_agent sc = (case agent profile of Some v \<Rightarrow> Some v | None \<Rightarrow> agent copied)"
    by (simp add: sc mm with_ignore_def assign_def over_def split: option.splits)
  show "sc_remotePath sc
          = (case remotePath profile of Some v \<Rightarrow> Some v | None \<Rightarrow> remotePath (config this))"
    using f by (simp add: sc mm with_ignore_def assign_def over_def split: option.splits)
  show "sc_ignoreFile sc
          = (case ignoreFile profile of Some v \<Rightarrow> Some v | None \<Rightarrow> ignoreFile (config this))"
    using f by (simp add: sc mm with_ignore_def assign_def over_def split: option.splits)
  show "sc_profiles sc = profiles profile"
    using f by (simp add: sc mm with_ignore_def assign_def over_def split: option.splits)
  show "\<And>k. sc_others sc k
          = (case others profile k of Some v \<Rightarrow> Some v | None \<Rightarrow> others (config this) k)"
    using f by (simp add: sc mm with_ignore_def assign_def map_add_def split: option.splits)
  show "\<exists>w1 w2. createIgnoreFn lib this (assign copied profile) w1 = (Inr (sc_ignore sc), w2)"
    using ci by (auto simp: sc mm with_ignore_def)
qed

theorem profile_lookup_and_merge_witness:
  "hasProfile (config service_profiles)
   \<and> state_profile world_prod = Some ''prod'' \<and> state_profile world_dev = Some ''dev''
   \<and> map_of (the (profiles (config service_profiles))) ''prod'' = None
   \<and> ''prod'' \<notin> set Object_prototype_members
   \<and> fst (getConfig lib0 service_profiles world_prod) = Inl (unknown_profile ''prod'')
   \<and> map_of (the (profiles (config service_profiles))) ''dev'' = Some profile_dev
   \<and> map_sum id sc_remotePath (fst (getConfig lib0 service_profiles world_dev)) = Inr (Some ''/srv/dev'')
   \<and> map_sum id (\<lambda>sc. sc_others sc ''host'') (fst (getConfig lib0 service_profiles world_dev))
       = Inr (Some (JStr ''dev.example.com''))
   \<and> map_sum id (\<lambda>sc. sc_others sc ''port'') (fst (getConfig lib0 service_profiles world_dev))
       = Inr (Some (JNum 22))"
proof -
  let ?copied = "FileServiceConfig (Some (AgentString ''/tmp/agent.sock'')) (Some ''/remote'')
                   (Some [''build/'']) None None
                   [''host'' \<mapsto> JStr ''example.com'', ''port'' \<mapsto> JNum 22]"
  have hp: "hasProfile (config service_profiles)"
    by (simp add: hasProfile_def service_profiles_def new_FileService_def cfg_profiles_def)
  have sp1: "state_profile world_prod = Some ''prod''"
    by (simp add: world_prod_def world_dev_def world0_def)
  have sp2: "state_profile world_dev = Some ''dev''"
    by (simp add: world_dev_def world0_def)
  have ra1: "resolveAgent (config service_profiles) (copy_without_profiles (config service_profiles))
               world_prod = Inr ?copied"
    by (simp add: config_eval service_profiles_def cfg_profiles_def world_prod_def world_dev_def
        world0_def)
  have ra2: "resolveAgent (config service_profiles) (copy_without_profiles (config service_profiles))
               world_dev = Inr ?copied"
    by (simp add: config_eval service_profiles_def cfg_profiles_def world_dev_def world0_def)
  have n: "map_of (the (profiles (config service_profiles))) ''prod'' = None"
    by (simp add: service_profiles_def new_FileService_def cfg_profiles_def)
  have n': "''prod'' \<notin> set Object_prototype_members"
    by (simp add: Object_prototype_members_def)
  have d: "map_of (the (profiles (config service_profiles))) ''dev'' = Some profile_dev"
    by (simp add: service_profiles_def new_FileService_def cfg_profiles_def)
  have ne1: "''prod'' \<noteq> []" and ne2: "''dev'' \<noteq> []" by simp_all
  obtain sc where s: "fst (getConfig lib0 service_profiles world_dev) = Inr sc"
    by (simp add: config_eval service_profiles_def cfg_profiles_def profile_dev_def world_dev_def
        world0_def)
  have c: "others (config service_profiles) ''port'' = Some (JNum 22)"
    by (simp add: service_profiles_def new_FileService_def cfg_profiles_def)
  from profile_lookup_and_merge [OF hp sp1 ne1 ra1, of lib0] n n'
  have a: "fst (getConfig lib0 service_profiles world_prod) = Inl (unknown_profile ''prod'')"
    by blast
  from profile_lookup_and_merge [OF hp sp2 ne2 ra2, of lib0] d s
  have b: "sc_remotePath sc = Some ''/srv/dev''"
    and b2: "sc_others sc ''host'' = Some (JStr ''dev.example.com'')"
    and b3: "sc_others sc ''port'' = Some (JNum 22)"
    using c by (simp_all add: profile_dev_def)
  show ?thesis using hp sp1 sp2 n n' d a b b2 b3 s by simp
qed

text \<open>
  The claim C7 as stated fails: with a non-empty profiles map and the active profile
  \<open>prod\<close> that names none of its keys, a base \<open>agent\<close> of \<open>$SSH_AUTH_SOCK\<close> whose variable
  is not set makes \<open>getConfig\<close> throw the environment error first, and its message does
  not mention \<open>prod\<close>.
\<close>

theorem unknown_profile_masked_counterexample:
  "hasProfile (config service_profiles)
   \<and> state_profile world_unset = Some ''prod''
   \<and> map_of (the (profiles (config service_profiles))) ''prod'' = None
   \<and> fst (getConfig lib0 service_profiles world_unset) = Inl (env_not_found ''SSH_AUTH_SOCK'')
   \<and> \<not> sublist ''prod'' (message (env_not_found ''SSH_AUTH_SOCK''))"
proof -
  have a: "fst (getConfig lib0 service_profiles world_unset) = Inl (env_not_found ''SSH_AUTH_SOCK'')"
    by (simp add: config_eval service_profiles_def cfg_profiles_def world_unset_def world0_def)
  have b: "\<not> sublist ''prod'' (message (env_not_found ''SSH_AUTH_SOCK''))"
    unfolding env_not_found_def dquote_def by code_simp
  show ?thesis using a b
    by (simp add: hasProfile_def service_profiles_def cfg_profiles_def new_FileService_def
        world_unset_def world0_def)
qed

text \<open>
  C8 (amended). When the base \<open>agent\<close> is \<open>$\<close> followed by a name, and the variable of that
  name is set or the name is not the name of a member of \<open>Object.prototype\<close>: \<open>getConfig\<close>
  throws \<open>Environment variable "<name>" not found\<close> exactly when the variable is unset or
  empty; otherwise, when \<open>getConfig\<close> returns, the \<open>agent\<close> of the result is the \<open>agent\<close>
  of the merged profile if that profile has one, and the variable's value if not. When
  the base \<open>agent\<close> is missing or is a string that does not start with \<open>$\<close>, the \<open>agent\<close> of
  the result is the merged profile's if it has one, and the base's unchanged if not.
\<close>

theorem agent_indirection:
  "(agent (config this) = Some (AgentString (CHR ''$'' # name))
      \<and> (env w name = None \<longrightarrow> name \<notin> set Object_prototype_members) \<longrightarrow>
      ((fst (getConfig lib this w) = Inl (env_not_found name)) = (\<not> truthy (env w name)))
    \<and> (\<forall>sc. fst (getConfig lib this w) = Inr sc \<longrightarrow>
          sc_agent sc = (case profileAgent (config this) w of
                           None \<Rightarrow> map_option AgentString (env w name)
                         | Some a \<Rightarrow> Some a)))
 \<and> (plain_agent (agent (config this)) \<longrightarrow>
      (\<forall>sc. fst (getConfig lib this w) = Inr sc \<longrightarrow>
          sc_agent sc = (case profileAgent (config this) w of
                           None \<Rightarrow> agent (config this)
                         | Some a \<Rightarrow> Some a)))"
proof (intro conjI impI allI)
  assume a: "agent (config this) = Some (AgentString (CHR ''$'' # name))
      \<and> (env w name = None \<longrightarrow> name \<notin> set Object_prototype_members)"
  note ra = resolveAgent_dollar [OF conjunct1 [OF a] conjunct2 [OF a],
      of "copy_without_profiles (config this)"]
  show "(fst (getConfig lib this w) = Inl (env_not_found name)) = (\<not> truthy (env w name))"
  proof
    assume e: "fst (getConfig lib this w) = Inl (env_not_found name)"
    show "\<not> truthy (env w name)"
    proof
      assume t: "truthy (env w name)"
      with ra have r: "resolveAgent (config this) (copy_without_profiles (config this)) w
                   = Inr (set_agent (AgentString (the (env w name)))
                            (copy_without_profiles (config this)))"
        by simp
      from getConfig_error [OF e] show False
      proof (elim disjE exE)
        fix w1 assume "mergedConfig this w = (Inl (env_not_found name), w1)"
        from mergedConfig_error_after_agent [OF this r] show False by auto
      qed auto
    qed
  next
    assume "\<not> truthy (env w name)"
    with ra show "fst (getConfig lib this w) = Inl (env_not_found name)"
      by (simp add: getConfig_def mergedConfig_def)
  qed
next
  fix sc
  assume a: "agent (config this) = Some (AgentString (CHR ''$'' # name))
      \<and> (env w name = None \<longrightarrow> name \<notin> set Object_prototype_members)"
    and s: "fst (getConfig lib this w) = Inr sc"
  note ra = resolveAgent_dollar [OF conjunct1 [OF a] conjunct2 [OF a],
      of "copy_without_profiles (config this)"]
  from getConfig_success [OF s] obtain m w1 fn w2 where
    m: "mergedConfig this w = (Inr m, w1)" and sc: "sc = with_ignore m fn" by blast
  from mergedConfig_success [OF m] obtain copied where
    c: "resolveAgent (config this) (copy_without_profiles (config this)) w = Inr copied"
    and mm: "m = (case activeProfile (config this) w of None \<Rightarrow> copied | Some pr \<Rightarrow> assign copied pr)"
    by blast
  from c ra have ac: "agent copied = map_option AgentString (env w name)"
    by (auto simp: set_agent_def truthy_def split: if_splits option.splits)
  show "sc_agent sc = (case profileAgent (config this) w of
                         None \<Rightarrow> map_option AgentString (env w name) | Some a \<Rightarrow> Some a)"
    using sc mm ac
    by (auto simp: with_ignore_def profileAgent_def assign_def over_def split: option.splits)
next
  fix sc
  assume a: "plain_agent (agent (config this))"
    and s: "fst (getConfig lib this w) = Inr sc"
  note ra = resolveAgent_plain [OF a, of "copy_without_profiles (config this)" w]
  from getConfig_success [OF s] obtain m w1 fn w2 where
    m: "mergedConfig this w = (Inr m, w1)" and sc: "sc = with_ignore m fn" by blast
  from mergedConfig_success [OF m] obtain copied where
    c: "resolveAgent (config this) (copy_without_profiles (config this)) w = Inr copied"
    and mm: "m = (case activeProfile (config this) w of None \<Rightarrow> copied | Some pr \<Rightarrow> assign copied pr)"
    by blast
  from c ra have ac: "agent copied = agent (config this)"
    by (auto simp: copy_without_profiles_def)
  show "sc_agent sc
          = (case profileAgent (config this) w of None \<Rightarrow> agent (config this) | Some a \<Rightarrow> Some a)"
    using sc mm ac
    by (auto simp: with_ignore_def profileAgent_def assign_def over_def split: option.splits)
qed

theorem agent_indirection_witness:
  "agent (config service_profiles) = Some (AgentString (CHR ''$'' # ''SSH_AUTH_SOCK''))
   \<and> ''SSH_AUTH_SOCK'' \<notin> set Object_prototype_members
   \<and> \<not> truthy (env world_unset ''SSH_AUTH_SOCK'')
   \<and> fst (getConfig lib0 service_profiles world_unset) = Inl (env_not_found ''SSH_AUTH_SOCK'')
   \<and> truthy (env (world_dev\<lparr>state_profile := None\<rparr>) ''SSH_AUTH_SOCK'')
   \<and> map_sum id sc_agent (fst (getConfig lib0 service_profiles (world_dev\<lparr>state_profile := None\<rparr>)))
       = Inr (Some (AgentString ''/tmp/agent.sock''))
   \<and> plain_agent (agent (config service_plain))
   \<and> map_sum id sc_agent (fst (getConfig lib0 service_plain world0)) = Inr None"
proof -
  let ?w = "world_dev\<lparr>state_profile := None\<rparr>"
  have h1: "agent (config service_profiles) = Some (AgentString (CHR ''$'' # ''SSH_AUTH_SOCK''))"
    by (simp add: service_profiles_def new_FileService_def cfg_profiles_def)
  have h0: "''SSH_AUTH_SOCK'' \<notin> set Object_prototype_members"
    by (simp add: Object_prototype_members_def)
  have h2: "\<not> truthy (env world_unset ''SSH_AUTH_SOCK'')"
    by (simp add: truthy_def world_unset_def world0_def)
  have h3: "truthy (env ?w ''SSH_AUTH_SOCK'')"
    by (simp add: truthy_def world_dev_def world0_def)
  have h4: "plain_agent (agent (config service_plain))"
    by (simp add: plain_agent_def service_plain_def new_FileService_def cfg_plain_def)
  obtain sc where s: "fst (getConfig lib0 service_profiles ?w) = Inr sc"
    by (simp add: config_eval service_profiles_def cfg_profiles_def world_dev_def world0_def)
  obtain sc' where s': "fst (getConfig lib0 service_plain world0) = Inr sc'"
    by (simp add: config_eval service_plain_def cfg_plain_def world0_def)
  have p: "profileAgent (config service_profiles) ?w = None"
    by (simp add: profileAgent_def activeProfile_def truthy_def)
  have p': "profileAgent (config service_plain) world0 = None"
    by (simp add: profileAgent_def activeProfile_def truthy_def world0_def)
  have e: "env ?w ''SSH_AUTH_SOCK'' = Some ''/tmp/agent.sock''"
    by (simp add: world_dev_def world0_def)
  have g: "agent (config service_plain) = None"
    by (simp add: service_plain_def new_FileService_def cfg_plain_def)
  from agent_indirection [of service_profiles "''SSH_AUTH_SOCK''" world_unset lib0] h1 h0 h2
  have a: "fst (getConfig lib0 service_profiles world_unset) = Inl (env_not_found ''SSH_AUTH_SOCK'')"
    by blast
  from agent_indirection [of service_profiles "''SSH_AUTH_SOCK''" ?w lib0] h1 h0 s p e
  have b: "sc_agent sc = Some (AgentString ''/tmp/agent.sock'')" by simp
  from agent_indirection [of service_plain "''x''" world0 lib0] h4 s' p' g
  have c: "sc_agent sc' = None" by simp
  show ?thesis using h0 h1 h2 h3 h4 a b c s s' by simp
qed

text \<open>
  The claim C8 as stated fails in two ways. The base \<open>agent\<close> is \<open>$SSH_AUTH_SOCK\<close>. With
  the variable set to \<open>/tmp/agent.sock\<close> and the active profile \<open>dev\<close> having an \<open>agent\<close>
  of its own, the resolved \<open>agent\<close> is the profile's, not the variable's value. With the
  variable set to the empty string, \<open>getConfig\<close> throws the not-found error although
  the variable is set.
\<close>

theorem agent_overridden_counterexample:
  "agent (config service_profiles) = Some (AgentString (CHR ''$'' # ''SSH_AUTH_SOCK''))
   \<and> env world_dev ''SSH_AUTH_SOCK'' = Some ''/tmp/agent.sock''
   \<and> map_sum id sc_agent (fst (getConfig lib0 service_profiles world_dev))
       = Inr (Some (AgentString ''pageant''))
   \<and> env world_empty ''SSH_AUTH_SOCK'' = Some []
   \<and> fst (getConfig lib0 service_profiles world_empty) = Inl (env_not_found ''SSH_AUTH_SOCK'')"
  by (simp add: config_eval service_profiles_def cfg_profiles_def profile_dev_def world_dev_def
      world_empty_def world0_def)

text \<open>
  C10. On a service whose validator was never set, \<open>getConfig\<close> has no validation step: it
  never throws a \<open>Config validation fail\<close> error, whatever the raw configuration and the
  context are, and it behaves as it would with a validator that accepts everything.
\<close>

theorem no_validator_no_validation:
  assumes "configValidator this = None"
  shows "fst (getConfig lib this w) \<noteq> Inl (validation_fail msg hint)
       \<and> getConfig lib this w = getConfig lib (this\<lparr>configValidator := Some (\<lambda>c. None)\<rparr>) w"
proof -
  have a: "fst (getConfig lib this w) \<noteq> Inl (validation_fail msg hint)"
  proof
    assume h: "fst (getConfig lib this w) = Inl (validation_fail msg hint)"
    from getConfig_error [OF h] show False
    proof (elim disjE exE)
      fix w1 assume m: "mergedConfig this w = (Inl (validation_fail msg hint), w1)"
      from m assms
      have "(\<exists>n. validation_fail msg hint = env_not_found n)
          \<or> validation_fail msg hint = agent_type_error
          \<or> (\<exists>p. validation_fail msg hint = unknown_profile p)"
        by (auto simp: mergedConfig_no_validator split: sum.splits
            dest: resolveAgent_error applyProfile_error)
      then show False by auto
    qed auto
  qed
  have b: "mergedConfig (this\<lparr>configValidator := Some (\<lambda>c. None)\<rparr>) w = mergedConfig this w"
    using assms by (auto simp: mergedConfig_def validate_def split: sum.splits prod.splits)
  have c: "\<And>cfg w1. createIgnoreFn lib (this\<lparr>configValidator := Some (\<lambda>c. None)\<rparr>) cfg w1
               = createIgnoreFn lib this cfg w1"
    by (simp add: createIgnoreFn_def)
  have d: "getConfig lib this w = getConfig lib (this\<lparr>configValidator := Some (\<lambda>c. None)\<rparr>) w"
    by (simp add: getConfig_def b c split: prod.splits sum.splits)
  show ?thesis using a d by blast
qed

theorem no_validator_no_validation_witness:
  "configValidator (new_FileService ''/proj'' ''/proj'' cfg_plain) = None
   \<and> fst (getConfig lib0 (new_FileService ''/proj'' ''/proj'' cfg_plain) world0)
       \<noteq> Inl (validation_fail ''host is required'' False)
   \<and> fst (getConfig lib0
            (setConfigValidator (\<lambda>c. Some ''host is required'')
               (new_FileService ''/proj'' ''/proj'' cfg_plain)) world0)
       = Inl (validation_fail ''host is required'' False)"
proof -
  have h: "configValidator (new_FileService ''/proj'' ''/proj'' cfg_plain) = None"
    by (simp add: new_FileService_def)
  have r: "fst (getConfig lib0
            (setConfigValidator (\<lambda>c. Some ''host is required'')
               (new_FileService ''/proj'' ''/proj'' cfg_plain)) world0)
       = Inl (validation_fail ''host is required'' False)"
    by (simp add: config_eval setConfigValidator_def cfg_plain_def world0_def)
  from no_validator_no_validation [OF h, of lib0 world0 "''host is required''" False]
  have n: "fst (getConfig lib0 (new_FileService ''/proj'' ''/proj'' cfg_plain) world0)
             \<noteq> Inl (validation_fail ''host is required'' False)"
    by blast
  show ?thesis using h r n by blast
qed

section \<open>Transfer schedulers\<close>

subsection \<open>Auxiliary facts\<close>

lemma foldl_Scheduler_empty_trace:
  "trace (foldl (\<lambda>h s. Scheduler_empty s h) h ss) = trace h @ map SchedulerEmpty ss"
  by (induction ss arbitrary: h) (simp_all add: Scheduler_empty_def log_effect_def update_sched_def)

lemma foldl_Scheduler_empty_cancelled:
  "cancelled (foldl (\<lambda>h s. Scheduler_empty s h) h ss) = cancelled h"
  by (induction ss arbitrary: h) (simp_all add: Scheduler_empty_def log_effect_def update_sched_def)

lemma foldl_Scheduler_empty_objects:
  "objects (foldl (\<lambda>h s. Scheduler_empty s h) h ss) =
     (\<lambda>s. if s \<in> set ss then (objects h s)\<lparr>queue := []\<rparr> else objects h s)"
  by (induction ss arbitrary: h)
     (auto simp: Scheduler_empty_def log_effect_def update_sched_def fun_eq_iff)

lemma foldl_cancel_trace:
  "trace (foldl (\<lambda>h t. TransferTask_cancel t h) h ts) = trace h @ map TaskCancel ts"
  by (induction ts arbitrary: h) (simp_all add: TransferTask_cancel_def log_effect_def)

lemma foldl_cancel_cancelled:
  "cancelled (foldl (\<lambda>h t. TransferTask_cancel t h) h ts) = cancelled h @ ts"
  by (induction ts arbitrary: h) (simp_all add: TransferTask_cancel_def log_effect_def)

lemma foldl_cancel_objects:
  "objects (foldl (\<lambda>h t. TransferTask_cancel t h) h ts) = objects h"
  by (induction ts arbitrary: h) (simp_all add: TransferTask_cancel_def log_effect_def)

lemma foldl_Scheduler_empty_frame:
  "next_ref (foldl (\<lambda>h s. Scheduler_empty s h) h ss) = next_ref h"
  "next_promise (foldl (\<lambda>h s. Scheduler_empty s h) h ss) = next_promise h"
  "resolved (foldl (\<lambda>h s. Scheduler_empty s h) h ss) = resolved h"
  by (induction ss arbitrary: h) (simp_all add: Scheduler_empty_def log_effect_def update_sched_def)

lemma foldl_cancel_frame:
  "next_ref (foldl (\<lambda>h t. TransferTask_cancel t h) h ts) = next_ref h"
  "next_promise (foldl (\<lambda>h t. TransferTask_cancel t h) h ts) = next_promise h"
  "resolved (foldl (\<lambda>h t. TransferTask_cancel t h) h ts) = resolved h"
  by (induction ts arbitrary: h) (simp_all add: TransferTask_cancel_def log_effect_def)

lemma findIndex_remove1:
  "(case findIndex (\<lambda>x. x = s) xs of None \<Rightarrow> xs | Some i \<Rightarrow> take i xs @ drop (Suc i) xs)
     = remove1 s xs"
  by (induction xs) (auto split: option.splits)

lemma removeScheduler_schedulers:
  "schedulers (removeScheduler s this) = remove1 s (schedulers this)"
  using findIndex_remove1 [where s = s and xs = "schedulers this"]
  by (simp add: removeScheduler_def split: option.splits)

lemma same_core_refl: "same_core st st"
  by (simp add: same_core_def)

lemma same_core_trans: "same_core a b \<Longrightarrow> same_core b c \<Longrightarrow> same_core a c"
  by (simp add: same_core_def)

lemma same_core_wf: "same_core st st' \<Longrightarrow> wf_state st \<Longrightarrow> wf_state st'"
  by (simp add: same_core_def wf_state_def)

lemma same_core_onTaskStart: "same_core st (onTaskStart t st)"
  by (simp add: same_core_def onTaskStart_def log_effect_def)

lemma same_core_onTaskDone: "same_core st (onTaskDone e t st)"
  by (simp add: same_core_def onTaskDone_def log_effect_def)

lemma same_core_foldl_onTaskStart: "same_core st (foldl (\<lambda>st t. onTaskStart t st) st ts)"
proof (induction ts arbitrary: st)
  case Nil
  show ?case by (simp add: same_core_refl)
next
  case (Cons t ts)
  from same_core_trans [OF same_core_onTaskStart Cons.IH] show ?case by simp
qed

lemma same_core_update_sched:
  assumes "\<And>sch. idleListeners (f sch) = idleListeners sch"
  shows "same_core st (fst st, update_sched s f (snd st))"
  using assms by (simp add: same_core_def update_sched_def)

lemma same_core_dispatch: "same_core st (Scheduler_dispatch s st)"
proof -
  let ?sch = "objects (snd st) s"
  let ?k = "min (concurrency ?sch - length (running ?sch)) (length (queue ?sch))"
  let ?f = "\<lambda>sch. sch\<lparr>queue := drop ?k (queue sch), running := running sch @ take ?k (queue ?sch)\<rparr>"
  have a: "same_core st (fst st, update_sched s ?f (snd st))"
    by (rule same_core_update_sched) simp
  have b: "Scheduler_dispatch s st
             = foldl (\<lambda>st t. onTaskStart t st) (fst st, update_sched s ?f (snd st)) (take ?k (queue ?sch))"
    by (simp add: Scheduler_dispatch_def Let_def)
  show ?thesis unfolding b by (rule same_core_trans [OF a same_core_foldl_onTaskStart])
qed

lemma same_core_add: "same_core st (handle_add s t st)"
proof -
  have a: "same_core st (fst st, update_sched s (\<lambda>sch. sch\<lparr>queue := queue sch @ [t]\<rparr>) (snd st))"
    by (rule same_core_update_sched) simp
  show ?thesis
    unfolding handle_add_def Scheduler_add_def Let_def
    using a same_core_trans [OF a same_core_dispatch] by simp
qed

lemma wf_onIdle:
  assumes "wf_state st" and "listener_sched l < next_ref (snd st)"
    and "listener_promise l < next_promise (snd st)"
  shows "wf_state (onIdle l st) \<and> next_ref (snd (onIdle l st)) = next_ref (snd st)
       \<and> next_promise (snd (onIdle l st)) = next_promise (snd st)"
proof (cases l)
  case (ResolveRun s pid)
  show ?thesis using assms unfolding ResolveRun
    by (auto simp: wf_state_def removeScheduler_schedulers resolve_def)
qed

lemma wf_foldl_onIdle:
  assumes "wf_state st"
    and "\<forall>l \<in> set ls. listener_sched l < next_ref (snd st) \<and> listener_promise l < next_promise (snd st)"
  shows "wf_state (foldl (\<lambda>st l. onIdle l st) st ls)"
  using assms
proof (induction ls arbitrary: st)
  case Nil
  then show ?case by simp
next
  case (Cons l ls)
  from Cons.prems have a: "listener_sched l < next_ref (snd st)"
    and b: "listener_promise l < next_promise (snd st)" by simp_all
  note w = wf_onIdle [OF Cons.prems(1) a b]
  have "wf_state (foldl (\<lambda>st l. onIdle l st) (onIdle l st) ls)"
    using w Cons.prems(2) by (intro Cons.IH) simp_all
  then show ?case by simp
qed

lemma wf_fireIdle: "wf_state st \<Longrightarrow> wf_state (fireIdle s st)"
  unfolding fireIdle_def by (rule wf_foldl_onIdle) (auto simp: wf_state_def)

lemma wf_taskFinished: "wf_state st \<Longrightarrow> wf_state (Scheduler_taskFinished s t e st)"
proof -
  assume w: "wf_state st"
  let ?st1 = "(fst st, update_sched s (\<lambda>sch. sch\<lparr>running := remove1 t (running sch)\<rparr>) (snd st))"
  have a: "same_core st ?st1" by (rule same_core_update_sched) simp
  have b: "same_core st (Scheduler_dispatch s (onTaskDone e t ?st1))"
    by (rule same_core_trans [OF a same_core_trans [OF same_core_onTaskDone same_core_dispatch]])
  have c: "wf_state (Scheduler_dispatch s (onTaskDone e t ?st1))"
    by (rule same_core_wf [OF b w])
  show ?thesis
    unfolding Scheduler_taskFinished_def Let_def using w c wf_fireIdle by simp
qed

lemma wf_create: "wf_state st \<Longrightarrow> wf_state (snd (createTransferScheduler c st))"
  by (fastforce simp: wf_state_def createTransferScheduler_def Let_def storeScheduler_def
      new_Scheduler_def less_Suc_eq)

lemma wf_cancel: "wf_state st \<Longrightarrow> wf_state (cancelTransferTasks st)"
proof -
  assume w: "wf_state st"
  obtain this h where st: "st = (this, h)" by (cases st)
  have obj: "\<And>s. idleListeners (objects (snd (cancelTransferTasks (this, h))) s)
                 = idleListeners (objects h s)"
    by (simp add: cancelTransferTasks_def Let_def log_effect_def foldl_cancel_objects
        foldl_Scheduler_empty_objects)
  have nr: "next_ref (snd (cancelTransferTasks (this, h))) = next_ref h"
    and np: "next_promise (snd (cancelTransferTasks (this, h))) = next_promise h"
    and rs: "resolved (snd (cancelTransferTasks (this, h))) = resolved h"
    by (simp_all add: cancelTransferTasks_def Let_def log_effect_def foldl_cancel_frame
        foldl_Scheduler_empty_frame)
  have sc: "schedulers (fst (cancelTransferTasks (this, h))) = []"
    by (simp add: cancelTransferTasks_def Let_def)
  show ?thesis using w unfolding st wf_state_def by (simp add: obj nr np rs sc)
qed


lemma wf_run: 
  assumes w: "wf_state st" and a: "s < next_ref (snd st)"
  shows "wf_state (snd (handle_run s st))"
proof (cases "sched_size (objects (snd st) s) \<le> 0")
  case True
  then have "snd (handle_run s st)
      = (removeScheduler s (fst st), resolve (next_promise (snd st)) s ((snd st)\<lparr>next_promise := Suc (next_promise (snd st))\<rparr>))"
    by (simp add: handle_run_def Let_def)
  then show ?thesis using w a
    by (auto simp: wf_state_def removeScheduler_schedulers resolve_def less_Suc_eq)
next
  case False
  let ?pid = "next_promise (snd st)"
  let ?h0 = "(snd st)\<lparr>next_promise := Suc ?pid\<rparr>"
  let ?st1 = "(fst st, update_sched s (\<lambda>sch. sch\<lparr>idleListeners := idleListeners sch @ [ResolveRun s ?pid]\<rparr>) ?h0)"
  let ?st2 = "(fst ?st1, log_effect (SchedulerStart s) (update_sched s (\<lambda>sch. sch\<lparr>started := True\<rparr>) (snd ?st1)))"
  have w1: "wf_state ?st1" using w a
    by (auto simp: wf_state_def update_sched_def less_Suc_eq)
  have c: "same_core ?st1 ?st2"
    by (simp add: same_core_def update_sched_def log_effect_def)
  have w2: "wf_state (Scheduler_dispatch s ?st2)"
    by (rule same_core_wf [OF same_core_trans [OF c same_core_dispatch] w1])
  from False have "snd (handle_run s st) = Scheduler_dispatch s ?st2"
    by (simp add: handle_run_def Let_def Scheduler_start_def)
  with w2 show ?thesis by simp
qed

lemma wf_step: "wf_state st \<Longrightarrow> wf_state (step st a)"
  by (cases a) (auto intro: wf_create wf_run wf_taskFinished wf_cancel same_core_wf [OF same_core_add])

lemma wf_execute: "wf_state st \<Longrightarrow> wf_state (execute st acts)"
  unfolding execute_def by (induction acts arbitrary: st) (simp_all add: wf_step)

lemma wf_init: "wf_state (new_FileService b wsp cfg, heap0)"
  by (simp add: wf_state_def new_FileService_def heap0_def new_Scheduler_def)

lemma queues_only_schedulers:
  assumes "schedulers (fst st) \<noteq> []" and "\<forall>a \<in> set acts. queues_only a"
  shows "schedulers (fst (execute st acts)) \<noteq> []"
  using assms unfolding execute_def
proof (induction acts arbitrary: st)
  case Nil
  then show ?case by simp
next
  case (Cons a acts)
  have "schedulers (fst (step st a)) \<noteq> []"
  proof (cases a)
    case (CreateTransferScheduler c)
    then show ?thesis by (simp add: createTransferScheduler_def Let_def storeScheduler_def)
  next
    case (HandleAdd s t)
    then show ?thesis using Cons.prems(1) same_core_add [of st s t]
      by (auto simp: same_core_def)
  qed (use Cons.prems(2) in simp_all)
  then show ?case using Cons.IH Cons.prems(2) by simp
qed

lemmas transfer_eval =
  execute_def createTransferScheduler_def handle_add_def handle_run_def handle_size_def
  Scheduler_add_def Scheduler_start_def Scheduler_dispatch_def Scheduler_taskFinished_def
  Scheduler_empty_def TransferTask_cancel_def fireIdle_def onTaskStart_def onTaskDone_def
  storeScheduler_def removeScheduler_def cancelTransferTasks_def resolve_def update_sched_def
  log_effect_def new_Scheduler_def sched_size_def Set_add_def Set_delete_def heap0_def
  new_FileService_def Let_def


lemma st_created_eval:
  "schedulers (fst st_created) = [0]" "next_ref (snd st_created) = 1"
  "sched_size (objects (snd st_created) 0) = 0" "resolved (snd st_created) = []"
  "trace (snd st_created) = []" "next_promise (snd st_created) = 0"
  "started (objects (snd st_created) 0) = False"
  by (simp_all add: st_created_def service_plain_def transfer_eval)

lemma st_running_eval:
  "schedulers (fst st_running) = [0]"
  "pendingTransferTasks (fst st_running) = [7]"
  "queue (objects (snd st_running) 0) = [8]"
  "running (objects (snd st_running) 0) = [7]"
  "trace (snd st_running) = [SchedulerStart 0, Emit BEFORE_TRANSFER None 7]"
  "cancelled (snd st_running) = []"
  by (simp_all add: st_running_def service_plain_def transfer_eval)

lemma st_done_eval:
  "schedulers (fst st_done) = []" "resolved (snd st_done) = [(0, 0)]"
  "pendingTransferTasks (fst st_done) = []"
  by (simp_all add: st_done_def service_plain_def transfer_eval)

subsection \<open>Cancelling\<close>

text \<open>
  C1. \<open>cancelTransferTasks\<close>, from any state of the service: the effects it adds are, in
  this order, \<open>empty()\<close> on every scheduler of the active list, the clearing of the list,
  \<open>cancel()\<close> on every pending task, the clearing of the pending set. Afterwards the list
  and the pending set are empty, the listed schedulers have an empty queue and their
  running tasks as before, the other schedulers are as before, and the pending tasks
  are the ones newly signalled.
\<close>

theorem cancelTransferTasks_order:
  "trace (snd (cancelTransferTasks (this, h)))
     = trace h @ map SchedulerEmpty (schedulers this) @ [SchedulersCleared]
         @ map TaskCancel (pendingTransferTasks this) @ [PendingCleared]
   \<and> schedulers (fst (cancelTransferTasks (this, h))) = []
   \<and> pendingTransferTasks (fst (cancelTransferTasks (this, h))) = []
   \<and> (\<forall>s \<in> set (schedulers this).
         objects (snd (cancelTransferTasks (this, h))) s = (objects h s)\<lparr>queue := []\<rparr>)
   \<and> (\<forall>s. s \<notin> set (schedulers this) \<longrightarrow>
         objects (snd (cancelTransferTasks (this, h))) s = objects h s)
   \<and> cancelled (snd (cancelTransferTasks (this, h))) = cancelled h @ pendingTransferTasks this"
  by (simp add: cancelTransferTasks_def Let_def log_effect_def foldl_cancel_trace
      foldl_cancel_cancelled foldl_cancel_objects foldl_Scheduler_empty_trace
      foldl_Scheduler_empty_cancelled foldl_Scheduler_empty_objects)



theorem cancelTransferTasks_order_witness:
  "schedulers (fst st_running) = [0] \<and> pendingTransferTasks (fst st_running) = [7]
   \<and> trace (snd (cancelTransferTasks st_running))
       = [SchedulerStart 0, Emit BEFORE_TRANSFER None 7,
          SchedulerEmpty 0, SchedulersCleared, TaskCancel 7, PendingCleared]
   \<and> queue (objects (snd (cancelTransferTasks st_running)) 0) = []
   \<and> running (objects (snd (cancelTransferTasks st_running)) 0) = [7]
   \<and> cancelled (snd (cancelTransferTasks st_running)) = [7]
   \<and> schedulers (fst (cancelTransferTasks st_running)) = []
   \<and> pendingTransferTasks (fst (cancelTransferTasks st_running)) = []"
  using cancelTransferTasks_order [of "fst st_running" "snd st_running"] st_running_eval
  by simp

subsection \<open>Running a scheduler\<close>

text \<open>
  C2. In every state that a new service reaches through calls of its clients and ends of
  tasks: the scheduler of every resolved \<open>run()\<close> promise is not in the active-scheduler
  list; and \<open>run()\<close> on a handle whose scheduler has size zero returns a new promise that
  is resolved at once, with the scheduler removed from the list, no scheduler object
  changed (so nothing started) and no effect added.
\<close>

theorem run_resolves_after_removal:
  "(\<forall>r \<in> set (resolved (snd (execute (new_FileService b wsp cfg, heap0) acts))).
       snd r \<notin> set (schedulers (fst (execute (new_FileService b wsp cfg, heap0) acts))))
 \<and> (\<forall>s. s < next_ref (snd (execute (new_FileService b wsp cfg, heap0) acts))
        \<and> handle_size s (execute (new_FileService b wsp cfg, heap0) acts) = 0 \<longrightarrow>
       (let st = execute (new_FileService b wsp cfg, heap0) acts;
            pid = fst (handle_run s st);
            st' = snd (handle_run s st)
        in pid \<notin> fst ` set (resolved (snd st))
         \<and> (pid, s) \<in> set (resolved (snd st'))
         \<and> objects (snd st') = objects (snd st)
         \<and> trace (snd st') = trace (snd st)
         \<and> s \<notin> set (schedulers (fst st'))))"
proof -
  let ?st = "execute (new_FileService b wsp cfg, heap0) acts"
  have w: "wf_state ?st" by (rule wf_execute [OF wf_init])
  have a: "\<forall>r \<in> set (resolved (snd ?st)). snd r \<notin> set (schedulers (fst ?st))"
    using w by (simp add: wf_state_def)
  have b: "\<forall>s. s < next_ref (snd ?st) \<and> handle_size s ?st = 0 \<longrightarrow>
       (let st = ?st; pid = fst (handle_run s st); st' = snd (handle_run s st)
        in pid \<notin> fst ` set (resolved (snd st))
         \<and> (pid, s) \<in> set (resolved (snd st'))
         \<and> objects (snd st') = objects (snd st)
         \<and> trace (snd st') = trace (snd st)
         \<and> s \<notin> set (schedulers (fst st')))"
  proof (intro allI impI)
    fix s assume h: "s < next_ref (snd ?st) \<and> handle_size s ?st = 0"
    have fresh: "next_promise (snd ?st) \<notin> fst ` set (resolved (snd ?st))"
      using w by (auto simp: wf_state_def)
    have d: "distinct (schedulers (fst ?st))" using w by (simp add: wf_state_def)
    show "let st = ?st; pid = fst (handle_run s st); st' = snd (handle_run s st)
        in pid \<notin> fst ` set (resolved (snd st))
         \<and> (pid, s) \<in> set (resolved (snd st'))
         \<and> objects (snd st') = objects (snd st)
         \<and> trace (snd st') = trace (snd st)
         \<and> s \<notin> set (schedulers (fst st'))"
      using h fresh d
      by (simp add: Let_def handle_run_def handle_size_def resolve_def removeScheduler_schedulers)
  qed
  show ?thesis using a b by blast
qed



theorem run_resolves_after_removal_witness:
  "resolved (snd st_done) = [(0, 0)] \<and> schedulers (fst st_done) = []
   \<and> 0 < next_ref (snd st_created) \<and> handle_size 0 st_created = 0
   \<and> schedulers (fst st_created) = [0]
   \<and> fst (handle_run 0 st_created) = 0
   \<and> resolved (snd (snd (handle_run 0 st_created))) = [(0, 0)]
   \<and> schedulers (fst (snd (handle_run 0 st_created))) = []
   \<and> started (objects (snd (snd (handle_run 0 st_created))) 0) = False"
proof -
  have a: "\<forall>r \<in> set (resolved (snd st_done)). snd r \<notin> set (schedulers (fst st_done))"
    using run_resolves_after_removal
      [of "''/proj''" "''/proj''" cfg_plain
          "[CreateTransferScheduler 1, HandleAdd 0 7, HandleRun 0, TaskFinished 0 7 None]"]
    unfolding st_done_def service_plain_def by blast
  have h: "0 < next_ref (snd st_created) \<and> handle_size 0 st_created = 0"
    by (simp add: st_created_eval handle_size_def)
  have b: "objects (snd (snd (handle_run 0 st_created))) = objects (snd st_created)
         \<and> 0 \<notin> set (schedulers (fst (snd (handle_run 0 st_created))))"
    using run_resolves_after_removal
      [of "''/proj''" "''/proj''" cfg_plain "[CreateTransferScheduler 1]"] h
    unfolding st_created_def service_plain_def Let_def by blast
  have c: "fst (handle_run 0 st_created) = 0"
    "resolved (snd (snd (handle_run 0 st_created))) = [(0, 0)]"
    "schedulers (fst (snd (handle_run 0 st_created))) = []"
    by (simp_all add: handle_run_def Let_def st_created_eval resolve_def removeScheduler_schedulers)
  show ?thesis using a b c h st_done_eval st_created_eval by simp
qed

subsection \<open>Busy or idle\<close>

text \<open>
  C9 (amended). \<open>isTransferring()\<close> is true exactly while the active-scheduler list is not
  empty, whether or not a listed scheduler holds tasks: it is true from
  \<open>createTransferScheduler\<close> on, through any further \<open>add\<close> calls and scheduler creations
  before a \<open>run()\<close>; it is false on a new service, after \<open>cancelTransferTasks\<close>, and after
  \<open>run()\<close> on the only listed scheduler when that scheduler holds no task.
\<close>

theorem isTransferring_iff_listed:
  "isTransferring (fst st) = (schedulers (fst st) \<noteq> [])
   \<and> ((\<forall>a \<in> set acts. queues_only a) \<longrightarrow>
        isTransferring (fst (execute (snd (createTransferScheduler c st)) acts)))
   \<and> \<not> isTransferring (fst (cancelTransferTasks st))
   \<and> \<not> isTransferring (new_FileService b wsp cfg)
   \<and> (schedulers (fst st) = [s] \<and> handle_size s st = 0 \<longrightarrow>
        \<not> isTransferring (fst (snd (handle_run s st))))"
proof -
  have a: "schedulers (fst (snd (createTransferScheduler c st))) \<noteq> []"
    by (simp add: createTransferScheduler_def Let_def storeScheduler_def)
  have b: "(\<forall>a \<in> set acts. queues_only a) \<longrightarrow>
        isTransferring (fst (execute (snd (createTransferScheduler c st)) acts))"
    using queues_only_schedulers [OF a] by (simp add: isTransferring_def)
  have c: "\<not> isTransferring (fst (cancelTransferTasks st))"
    by (simp add: isTransferring_def cancelTransferTasks_def Let_def)
  have d: "schedulers (fst st) = [s] \<and> handle_size s st = 0 \<longrightarrow>
        \<not> isTransferring (fst (snd (handle_run s st)))"
    by (simp add: isTransferring_def handle_run_def handle_size_def Let_def
        removeScheduler_schedulers)
  show ?thesis using b c d by (simp add: isTransferring_def new_FileService_def)
qed


theorem isTransferring_iff_listed_witness:
  "queues_only (HandleAdd 0 7) \<and> queues_only (HandleAdd 0 8)
   \<and> isTransferring
        (fst (execute (snd (createTransferScheduler 1 (service_plain, heap0)))
                [HandleAdd 0 7, HandleAdd 0 8]))
   \<and> isTransferring (fst st_running)
   \<and> \<not> isTransferring (fst (cancelTransferTasks st_running))
   \<and> schedulers (fst st_created) = [0] \<and> handle_size 0 st_created = 0
   \<and> \<not> isTransferring (fst (snd (handle_run 0 st_created)))"
proof -
  have q: "\<forall>a \<in> set [HandleAdd 0 7, HandleAdd 0 8]. queues_only a" by simp
  have h: "schedulers (fst st_created) = [0] \<and> handle_size 0 st_created = 0"
    by (simp add: st_created_eval handle_size_def)
  have r: "isTransferring (fst st_running)"
    by (simp add: isTransferring_def st_running_eval)
  from isTransferring_iff_listed
         [where st = "(service_plain, heap0)" and acts = "[HandleAdd 0 7, HandleAdd 0 8]"
            and c = 1]
       isTransferring_iff_listed [where st = st_running]
       isTransferring_iff_listed [where st = st_created and s = 0]
       q h r
  show ?thesis by simp
qed

text \<open>
  The claim C9 as stated fails: right after \<open>createTransferScheduler\<close> on a new service,
  \<open>isTransferring()\<close> is true although the only scheduler there is holds no queued and no
  running task.
\<close>

theorem isTransferring_without_tasks_counterexample:
  "isTransferring (fst st_created) \<and> schedulers (fst st_created) = [0]
   \<and> next_ref (snd st_created) = 1 \<and> \<not> holdsTasks (snd st_created) 0"
  by (simp add: isTransferring_def holdsTasks_def st_created_eval)

end
